theory Spec2Isabelle
  imports Complex_Main "HOL-Library.Char_ord" "HOL-Library.List_Lexorder" "HOL-Library.Multiset"
begin

section \<open>Strings\<close>

text \<open>
  A Python string is modelled by the list of the bytes of its UTF-8 encoding, on which
  equality, the lexicographic order and containment agree with those of the strings.
  \<open>str.lower\<close> and \<open>str.strip\<close> belong to the Python library and are parameters of the model
  (see \<open>library\<close> below). On a string of ASCII characters they do what \<open>ascii_lower\<close> and
  \<open>ascii_strip\<close> do: \<open>ascii_lower\<close> maps \<open>A\<close>..\<open>Z\<close> to \<open>a\<close>..\<open>z\<close> (adding 32 to the
  code, that is, setting the bit of weight 32), \<open>ascii_strip\<close> removes the ASCII white space
  characters (codes 9 to 13, 28 to 32) at both ends. The two are used in the examples only.
\<close>

definition ascii_lower_char :: "char \<Rightarrow> char" where
  "ascii_lower_char c =
     (if 65 \<le> (of_char c :: nat) \<and> (of_char c :: nat) \<le> 90
      then (case c of Char b0 b1 b2 b3 b4 b5 b6 b7 \<Rightarrow> Char b0 b1 b2 b3 b4 True b6 b7)
      else c)"

definition ascii_lower :: "string \<Rightarrow> string" where
  "ascii_lower s = map ascii_lower_char s"

definition is_space :: "char \<Rightarrow> bool" where
  "is_space c =
     ((9 \<le> (of_char c :: nat) \<and> (of_char c :: nat) \<le> 13) \<or>
      (28 \<le> (of_char c :: nat) \<and> (of_char c :: nat) \<le> 32))"

definition ascii_strip :: "string \<Rightarrow> string" where
  "ascii_strip s = rev (dropWhile is_space (rev (dropWhile is_space s)))"



text \<open>
  \<open>s[:n]\<close>: the first \<open>n\<close> characters. In UTF-8 a character is a leading byte followed by
  its continuation bytes (\<open>0x80\<close> to \<open>0xBF\<close>).
\<close>

definition is_continuation :: "char \<Rightarrow> bool" where
  "is_continuation c = (128 \<le> (of_char c :: nat) \<and> (of_char c :: nat) < 192)"

fun take_chars :: "nat \<Rightarrow> string \<Rightarrow> string" where
  "take_chars 0 s = []"
| "take_chars (Suc n) [] = []"
| "take_chars (Suc n) (c # cs) =
     c # takeWhile is_continuation cs @ take_chars n (dropWhile is_continuation cs)"

text \<open>\<open>s.replace("Z", "+00:00")\<close>: every occurrence of the one-character pattern is replaced.\<close>

definition replace_Z :: "string \<Rightarrow> string" where
  "replace_Z s = concat (map (\<lambda>c. if c = CHR ''Z'' then ''+00:00'' else [c]) s)"

section \<open>Exceptions and date-times\<close>

text \<open>
  The exceptions the modelled functions can raise. \<open>APIError\<close> carries the message it was
  raised with (\<open>str(e)\<close>); \<open>RetryError\<close> is what the retry decorator of \<open>api_get\<close> raises when
  it gives up, wrapping the last attempt's exception; \<open>RequestFailed\<close> stands for any exception
  of the HTTP library or of JSON decoding; the other three are Python's built-in exceptions.
\<close>

datatype exc =
    APIError string
  | RetryError exc
  | RequestFailed
  | ValueError
  | TypeError
  | AttributeError

text \<open>
  A \<open>datetime\<close> value is either naive (no offset; the number is its wall-clock time in
  microseconds) or aware (the number is its instant in microseconds UTC). Python orders two
  naive or two aware values and raises \<open>TypeError\<close> on a mixed pair.
\<close>

datatype datetime = Naive int | Aware int

fun dt_le :: "datetime \<Rightarrow> datetime \<Rightarrow> exc + bool" where
  "dt_le (Naive a) (Naive b) = Inr (a \<le> b)"
| "dt_le (Aware a) (Aware b) = Inr (a \<le> b)"
| "dt_le _ _ = Inl TypeError"

fun dt_gt :: "datetime \<Rightarrow> datetime \<Rightarrow> exc + bool" where
  "dt_gt (Naive a) (Naive b) = Inr (a > b)"
| "dt_gt (Aware a) (Aware b) = Inr (a > b)"
| "dt_gt _ _ = Inl TypeError"

section \<open>Data\<close>

subsection \<open>The odds response\<close>

text \<open>
  The JSON of the odds endpoint, as \<open>pick_prematch_1x2\<close> reads it. A key read with
  \<open>.get(key, [])\<close> is a list (empty when the key is missing); \<open>bet_name\<close> is
  \<open>bet.get("name", "")\<close>; \<open>val_value\<close> is \<open>val.get("value") or ""\<close> and \<open>book_update\<close> is
  \<open>book.get("update", None)\<close>, where the empty string stands for a missing key or a null,
  which the code treats as it treats the empty string; \<open>val_odd\<close> is \<open>val.get("odd")\<close>,
  \<open>None\<close> when missing.
\<close>

record val =
  val_value :: string
  val_odd :: "string option"

record bet =
  bet_name :: string
  bet_values :: "val list"

record bookmaker =
  book_update :: string
  book_bets :: "bet list"

record odds_fixture =
  bookmakers :: "bookmaker list"

type_synonym price = "real option"
type_synonym triple = "price \<times> price \<times> price"

subsection \<open>Fixtures\<close>

text \<open>
  A key of a JSON object is missing, holds a null or holds a value: \<open>d.get(key)\<close> is
  \<open>None\<close> in the first two cases, \<open>d.get(key, default)\<close> is the default in the first case
  only.
\<close>

datatype 'a json_field = Missing | Null | Value 'a

definition get_field :: "'a json_field \<Rightarrow> 'a option" where
  "get_field x = (case x of Missing \<Rightarrow> None | Null \<Rightarrow> None | Value v \<Rightarrow> Some v)"


text \<open>
  An entry of the fixtures response, with the fields that the program reads. The league
  name and the date are read both with and without a default; for the other fields \<open>None\<close>
  is a missing key or a null.
\<close>

record fixture =
  fx_id :: "int option"
  fx_date :: "string json_field"
  fx_timestamp :: "int option"
  fx_status :: "string option"
  league_name :: "string json_field"
  league_season :: "int option"
  league_round :: "string option"
  home_name :: "string option"
  away_name :: "string option"
  goals_home :: "int option"
  goals_away :: "int option"

subsection \<open>Rows and frames\<close>

text \<open>
  A cell of the column \<open>DateUTC\<close>: the string of the fixture, as \<open>build_dataframe\<close> appends
  it, or a time stamp (\<open>None\<close> for \<open>NaT\<close>), after the conversion of line 235 or as the
  sample file is read.
\<close>

datatype date_cell = DateText "string option" | DateTime "datetime option"

record row =
  DateUTC :: date_cell
  League :: "string option"
  Season :: "int option"
  Round :: "string option"
  Home :: "string option"
  Away :: "string option"
  Kickoff_Timestamp :: "int option"
  FixtureID :: "int option"
  Status :: "string option"
  HomeGoals :: "int option"
  AwayGoals :: "int option"
  Outcome :: "string option"
  Odds_H :: price
  Odds_D :: price
  Odds_A :: price
  TeamSide :: "string option"
  TeamOdds :: price


section \<open>Library functions\<close>

text \<open>
  The functions of the Python library and of \<open>pandas\<close> that the program calls are
  parameters of the model, so that every property below holds whatever they compute:
  \<open>fromisoformat\<close> is \<open>datetime.fromisoformat\<close> and \<open>to_float\<close> is \<open>float\<close> on a string
  (\<open>None\<close> when they raise), \<open>lower\<close> is \<open>str.lower\<close>, \<open>strip\<close> is \<open>str.strip\<close>,
  \<open>to_datetime\<close> is \<open>pandas.to_datetime\<close> on a column (one time stamp for each cell, or an
  exception) and \<open>sort_values\<close> is \<open>DataFrame.sort_values("DateUTC")\<close>. A float is
  modelled by the real number it stands for, so the two zeros are the number 0; the values
  \<open>nan\<close> and \<open>inf\<close>, which \<open>float\<close> accepts as strings, have no counterpart in the model.
\<close>

type_synonym iso_parser = "string \<Rightarrow> datetime option"
type_synonym float_parser = "string \<Rightarrow> real option"

record library =
  fromisoformat :: iso_parser
  to_float :: float_parser
  lower :: "string \<Rightarrow> string"
  strip :: "string \<Rightarrow> string"
  to_datetime :: "date_cell list \<Rightarrow> exc + datetime option list"
  sort_values :: "row list \<Rightarrow> row list"

section \<open>The odds snapshot selector\<close>

text \<open>Truthiness of an optional float: \<open>None\<close> and zero are falsy.\<close>

definition truthy :: "price \<Rightarrow> bool" where
  "truthy p = (case p of None \<Rightarrow> False | Some x \<Rightarrow> x \<noteq> 0)"

text \<open>Lines 159 to 162: \<open>float(val.get("odd"))\<close>, with every exception mapped to \<open>None\<close>.\<close>

definition odd_of :: "library \<Rightarrow> val \<Rightarrow> price" where
  "odd_of lib v = (case val_odd v of None \<Rightarrow> None | Some s \<Rightarrow> to_float lib s)"

text \<open>Lines 156 to 168: the loop over \<open>bet.get("values", [])\<close>, from \<open>H = D = A = None\<close>.\<close>

definition set_hda :: "library \<Rightarrow> val \<Rightarrow> triple \<Rightarrow> triple" where
  "set_hda lib v t =
     (case t of (H, D, A) \<Rightarrow>
        (let name = lower lib (strip lib (val_value v)); odd = odd_of lib v in
         if name = ''home'' \<or> name = ''1'' then (odd, D, A)
         else if name = ''draw'' \<or> name = ''x'' then (H, odd, A)
         else if name = ''away'' \<or> name = ''2'' then (H, D, odd)
         else (H, D, A)))"

definition extract_hda :: "library \<Rightarrow> val list \<Rightarrow> triple" where
  "extract_hda lib vs = fold (set_hda lib) vs (None, None, None)"

text \<open>Lines 148 to 152: the bookmaker's update time, \<open>None\<close> when absent, empty or unparsable.\<close>

definition updated_dt :: "library \<Rightarrow> bookmaker \<Rightarrow> datetime option" where
  "updated_dt lib book =
     (if book_update book \<noteq> [] then fromisoformat lib (replace_Z (book_update book)) else None)"

definition is_1x2 :: "library \<Rightarrow> bet \<Rightarrow> bool" where
  "is_1x2 lib b =
     (lower lib (bet_name b) = ''match winner'' \<or> lower lib (bet_name b) = ''1x2'')"

text \<open>The loop state: \<open>best_dt\<close> and \<open>best_triple\<close>.\<close>

type_synonym best = "datetime option \<times> triple"

text \<open>Lines 143 to 172: the body of the innermost loop, for one bet of one bookmaker.\<close>

definition bet_step :: "library \<Rightarrow> datetime \<Rightarrow> bookmaker \<Rightarrow> bet \<Rightarrow> best \<Rightarrow> exc + best" where
  "bet_step lib kickoff book b st =
     (if is_1x2 lib b then
        (case updated_dt lib book of
           None \<Rightarrow> Inr st
         | Some u \<Rightarrow>
            (case dt_le u kickoff of
               Inl e \<Rightarrow> Inl e
             | Inr False \<Rightarrow> Inr st
             | Inr True \<Rightarrow>
                (case extract_hda lib (bet_values b) of (H, D, A) \<Rightarrow>
                   if truthy H \<or> truthy D \<or> truthy A then
                     (case fst st of
                        None \<Rightarrow> Inr (Some u, (H, D, A))
                      | Some best_dt \<Rightarrow>
                         (case dt_gt u best_dt of
                            Inl e \<Rightarrow> Inl e
                          | Inr True \<Rightarrow> Inr (Some u, (H, D, A))
                          | Inr False \<Rightarrow> Inr st))
                   else Inr st)))
      else Inr st)"

text \<open>A \<open>for\<close> loop whose body may raise: the first exception ends the loop.\<close>

fun for_each :: "('a \<Rightarrow> 's \<Rightarrow> exc + 's) \<Rightarrow> 'a list \<Rightarrow> 's \<Rightarrow> exc + 's" where
  "for_each body [] st = Inr st"
| "for_each body (x # xs) st =
     (case body x st of Inl e \<Rightarrow> Inl e | Inr st' \<Rightarrow> for_each body xs st')"

definition book_loop :: "library \<Rightarrow> datetime \<Rightarrow> bookmaker \<Rightarrow> best \<Rightarrow> exc + best" where
  "book_loop lib kickoff book st = for_each (bet_step lib kickoff book) (book_bets book) st"

definition fixture_loop :: "library \<Rightarrow> datetime \<Rightarrow> odds_fixture \<Rightarrow> best \<Rightarrow> exc + best" where
  "fixture_loop lib kickoff fx st = for_each (book_loop lib kickoff) (bookmakers fx) st"

text \<open>
  \<open>pick_prematch_1x2\<close>; \<open>odds_resp\<close> is the list \<open>odds_resp.get("response", [])\<close>. An
  unparsable kickoff raises \<open>ValueError\<close>, but only after the test for an empty response.
\<close>

definition pick_prematch_1x2 :: "library \<Rightarrow> odds_fixture list \<Rightarrow> string \<Rightarrow> exc + triple" where
  "pick_prematch_1x2 lib odds_resp kickoff_iso =
     (if odds_resp = [] then Inr (None, None, None)
      else
        (case fromisoformat lib (replace_Z kickoff_iso) of
           None \<Rightarrow> Inl ValueError
         | Some kickoff \<Rightarrow>
            (case for_each (fixture_loop lib kickoff) odds_resp (None, (None, None, None)) of
               Inl e \<Rightarrow> Inl e
             | Inr st \<Rightarrow> Inr (snd st))))"

section \<open>The HTTP client\<close>

text \<open>
  What one execution of the body of \<open>api_get\<close> meets: no API key in the environment
  (\<open>get_headers\<close> returns \<open>None\<close>), an exception of \<open>requests.get\<close>, or a reply with its
  status code, its text and its decoded JSON (\<open>None\<close> when \<open>r.json()\<close> raises). The path and
  the parameters of the request are not modelled: the replies are given by the environment.
\<close>

datatype 'j attempt = NoKey | NoReply | Reply nat string "'j option"

text \<open>\<open>str\<close> of a natural number, for the message of an HTTP failure.\<close>

fun digits :: "nat \<Rightarrow> string" where
  "digits n =
     (if n < 10 then [''0123456789'' ! n]
      else digits (n div 10) @ [''0123456789'' ! (n mod 10)])"

declare digits.simps [simp del]

text \<open>Lines 61 to 72: the body of \<open>api_get\<close>, executed once.\<close>

definition api_get_once :: "'j attempt \<Rightarrow> exc + 'j" where
  "api_get_once a =
     (case a of
        NoKey \<Rightarrow> Inl (APIError ''NO_API_KEY'')
      | NoReply \<Rightarrow> Inl RequestFailed
      | Reply status_code text body \<Rightarrow>
          if status_code = 429 then Inl (APIError ''RATE_LIMIT'')
          else if status_code \<ge> 300
            then Inl (APIError (''HTTP_'' @ digits status_code @ '': '' @ take_chars 200 text))
          else (case body of None \<Rightarrow> Inl RequestFailed | Some data \<Rightarrow> Inr data))"

text \<open>
  Lines 58 and 59, the decorator of the \<open>tenacity\<close> library.
  \<open>retry_if_exception_type(APIError)\<close>: an attempt is repeated when it raised an \<open>APIError\<close>.
\<close>

definition retry_if_exception_type_APIError :: "exc + 'j \<Rightarrow> bool" where
  "retry_if_exception_type_APIError r =
     (case r of Inl (APIError m) \<Rightarrow> True | _ \<Rightarrow> False)"

text \<open>\<open>stop_after_attempt(3)\<close>.\<close>

definition stop_after_attempt :: "nat \<Rightarrow> bool" where
  "stop_after_attempt attempt_number = (attempt_number \<ge> 3)"

text \<open>
  \<open>wait_exponential(multiplier=1, min=1, max=8)\<close>: the sleep after the attempt of the given
  number (counted from 1) is \<open>max(max(0, min), min(multiplier * 2 ** (attempt_number - 1), max))\<close>,
  as the current releases of the library compute it.
\<close>

definition wait_exponential :: "nat \<Rightarrow> real" where
  "wait_exponential attempt_number = max (max 0 1) (min (1 * 2 ^ (attempt_number - 1)) 8)"

text \<open>
  The decorated \<open>api_get\<close>. The environment \<open>w\<close> gives what the \<open>i\<close>-th execution of the body
  meets, over the whole run; the result comes with the sleeps made and the index of the
  next execution. An exception that is not an \<open>APIError\<close> is raised as it is; when the stop
  condition holds after a failed attempt the decorator raises \<open>RetryError\<close> (it was not given
  \<open>reraise=True\<close>).
\<close>

function api_get_from ::
  "(nat \<Rightarrow> 'j attempt) \<Rightarrow> nat \<Rightarrow> nat \<Rightarrow> (exc + 'j) \<times> real list \<times> nat" where
  "api_get_from w i attempt_number =
     (case api_get_once (w i) of
        Inr data \<Rightarrow> (Inr data, [], Suc i)
      | Inl e \<Rightarrow>
          if \<not> retry_if_exception_type_APIError (Inl e :: exc + 'j) then (Inl e, [], Suc i)
          else if stop_after_attempt attempt_number then (Inl (RetryError e), [], Suc i)
          else
            (case api_get_from w (Suc i) (Suc attempt_number) of
               (r, sleeps, j) \<Rightarrow> (r, wait_exponential attempt_number # sleeps, j)))"
  by pat_completeness auto
termination
  by (relation "measure (\<lambda>(w, i, attempt_number). 3 - attempt_number)")
     (auto simp: stop_after_attempt_def)

declare api_get_from.simps [simp del]

definition api_get :: "(nat \<Rightarrow> 'j attempt) \<Rightarrow> nat \<Rightarrow> (exc + 'j) \<times> real list \<times> nat" where
  "api_get w i = api_get_from w i 1"

section \<open>The team resolver\<close>

text \<open>
  An entry of the search response: \<open>item.get("team", {}).get("name")\<close> and
  \<open>item.get("team", {}).get("id")\<close>, \<open>None\<close> when the key is missing or holds a null.
\<close>

record team_item =
  team_name :: "string option"
  team_id :: "int option"

text \<open>Line 83: \<open>name and name.lower() == team_name.lower()\<close>.\<close>

definition name_matches :: "library \<Rightarrow> string \<Rightarrow> team_item \<Rightarrow> bool" where
  "name_matches lib query item =
     (case team_name item of
        None \<Rightarrow> False
      | Some name \<Rightarrow> name \<noteq> [] \<and> lower lib name = lower lib query)"

text \<open>
  \<open>find_team_id\<close>, from line 77 on: \<open>results\<close> is the list \<open>data.get("response", [])\<close> of the
  value that \<open>api_get\<close> returned (an exception of \<open>api_get\<close> leaves the function at line 76).
\<close>

definition find_team_id :: "library \<Rightarrow> team_item list \<Rightarrow> string \<Rightarrow> int option" where
  "find_team_id lib results query =
     (case results of
        [] \<Rightarrow> None
      | first # _ \<Rightarrow>
          (case find (name_matches lib query) results of
             Some item \<Rightarrow> team_id item
           | None \<Rightarrow> team_id first))"

section \<open>The fixture lister\<close>

text \<open>\<open>d.get(key, "")\<close> for an optional string, and the truthiness of an optional string.\<close>

definition or_empty :: "string option \<Rightarrow> string" where
  "or_empty s = (case s of None \<Rightarrow> [] | Some x \<Rightarrow> x)"

definition nonempty :: "string option \<Rightarrow> bool" where
  "nonempty s = (case s of None \<Rightarrow> False | Some x \<Rightarrow> x \<noteq> [])"






section \<open>Rows\<close>

definition outcome_from_score :: "int option \<Rightarrow> int option \<Rightarrow> string option" where
  "outcome_from_score home_goals away_goals =
     (case (home_goals, away_goals) of
        (Some h, Some a) \<Rightarrow>
          if h > a then Some ''H'' else if h < a then Some ''A'' else Some ''D''
      | _ \<Rightarrow> None)"

text \<open>
  \<open>get_fixture_odds_1x2\<close>. With a missing date, \<open>kickoff_iso.replace\<close> raises
  \<open>AttributeError\<close>, after the test for an empty response.
\<close>

definition get_fixture_odds_1x2 ::
  "library \<Rightarrow> (nat \<Rightarrow> odds_fixture list attempt) \<Rightarrow> nat \<Rightarrow> string option \<Rightarrow>
     (exc + triple) \<times> real list \<times> nat" where
  "get_fixture_odds_1x2 lib w i kickoff_iso =
     (case api_get w i of
        (Inl e, sleeps, j) \<Rightarrow> (Inl e, sleeps, j)
      | (Inr data, sleeps, j) \<Rightarrow>
          (case kickoff_iso of
             Some k \<Rightarrow> (pick_prematch_1x2 lib data k, sleeps, j)
           | None \<Rightarrow>
               (if data = [] then Inr (None, None, None) else Inl AttributeError, sleeps, j)))"

text \<open>Lines 204 to 232: the row of a fixture, from its odds.\<close>

definition make_row :: "library \<Rightarrow> fixture \<Rightarrow> string \<Rightarrow> triple \<Rightarrow> row" where
  "make_row lib f subject t =
     (case t of (H, D, A) \<Rightarrow>
        (let is_home =
               (nonempty (home_name f) \<and> lower lib (or_empty (home_name f)) = lower lib subject);
             is_away =
               (nonempty (away_name f) \<and> lower lib (or_empty (away_name f)) = lower lib subject)
         in \<lparr> DateUTC = DateText (get_field (fx_date f)),
              League = get_field (league_name f),
              Season = league_season f,
              Round = league_round f,
              Home = home_name f,
              Away = away_name f,
              Kickoff_Timestamp = fx_timestamp f,
              FixtureID = fx_id f,
              Status = fx_status f,
              HomeGoals = goals_home f,
              AwayGoals = goals_away f,
              Outcome = outcome_from_score (goals_home f) (goals_away f),
              Odds_H = H,
              Odds_D = D,
              Odds_A = A,
              TeamSide = (if is_home then Some ''Home'' else if is_away then Some ''Away'' else None),
              TeamOdds = (if is_home then H else if is_away then A else None) \<rparr>))"

text \<open>
  The state of the loop of \<open>build_dataframe\<close>: the rows appended, the variable
  \<open>fetch_odds\<close>, the index of the next execution of the body of \<open>api_get\<close>, the sleeps made
  and the warnings logged (the fixture identifier and \<open>str(e)\<close>).
\<close>

record run =
  rows :: "row list"
  fetch_odds :: bool
  clock :: nat
  slept :: "real list"
  logged :: "(int option \<times> string) list"

text \<open>
  Lines 183 to 232: the body of the loop. Only an \<open>APIError\<close> is caught; any other
  exception leaves \<open>build_dataframe\<close>.
\<close>

definition row_step ::
  "library \<Rightarrow> (nat \<Rightarrow> odds_fixture list attempt) \<Rightarrow> string \<Rightarrow> fixture \<Rightarrow> run \<Rightarrow> exc + run" where
  "row_step lib w subject f st =
     (if fetch_odds st then
        (case get_fixture_odds_1x2 lib w (clock st) (get_field (fx_date f)) of
           (Inr t, sleeps, j) \<Rightarrow>
             Inr (st \<lparr> rows := rows st @ [make_row lib f subject t],
                       clock := j,
                       slept := slept st @ sleeps @ [0.25] \<rparr>)
         | (Inl (APIError m), sleeps, j) \<Rightarrow>
             if m = ''NO_API_KEY''
             then Inr (st \<lparr> rows := rows st @ [make_row lib f subject (None, None, None)],
                            fetch_odds := False,
                            clock := j,
                            slept := slept st @ sleeps \<rparr>)
             else Inr (st \<lparr> rows := rows st @ [make_row lib f subject (None, None, None)],
                            clock := j,
                            slept := slept st @ sleeps,
                            logged := logged st @ [(fx_id f, m)] \<rparr>)
         | (Inl e, sleeps, j) \<Rightarrow> Inl e)
      else Inr (st \<lparr> rows := rows st @ [make_row lib f subject (None, None, None)] \<rparr>))"

text \<open>Line 235: the column \<open>DateUTC\<close> replaced by its time stamps.\<close>

definition set_date :: "row \<Rightarrow> datetime option \<Rightarrow> row" where
  "set_date r d = r \<lparr> DateUTC := DateTime d \<rparr>"

text \<open>
  \<open>build_dataframe\<close>: the loop, and for a frame that is not empty the conversion of the
  column \<open>DateUTC\<close>, which may raise, and the sort by that column. The frame is the list
  of its rows, held in the component \<open>rows\<close> of the final state.
\<close>

definition build_dataframe ::
  "library \<Rightarrow> (nat \<Rightarrow> odds_fixture list attempt) \<Rightarrow> nat \<Rightarrow> fixture list \<Rightarrow> string \<Rightarrow> bool \<Rightarrow>
     exc + run" where
  "build_dataframe lib w i fixtures subject fetch =
     (case for_each (row_step lib w subject) fixtures
             \<lparr> rows = [], fetch_odds = fetch, clock = i, slept = [], logged = [] \<rparr> of
        Inl e \<Rightarrow> Inl e
      | Inr st \<Rightarrow>
          if rows st = [] then Inr st
          else
            (case to_datetime lib (map DateUTC (rows st)) of
               Inl e \<Rightarrow> Inl e
             | Inr dates \<Rightarrow>
                 Inr (st \<lparr> rows := sort_values lib (map2 set_date (rows st) dates) \<rparr>)))"

section \<open>The exporter\<close>




section \<open>Notions used to state the properties\<close>

subsection \<open>Records of an odds response\<close>

text \<open>
  The pairs of a bookmaker and one of its bets, in the order in which the three nested
  \<open>for\<close> statements of \<open>pick_prematch_1x2\<close> visit them.
\<close>

definition records_of :: "odds_fixture list \<Rightarrow> (bookmaker \<times> bet) list" where
  "records_of resp =
     concat (map (\<lambda>fx. concat (map (\<lambda>book. map (Pair book) (book_bets book)) (bookmakers fx))) resp)"

fun stamp :: "datetime \<Rightarrow> int" where
  "stamp (Naive a) = a"
| "stamp (Aware a) = a"

definition update_stamp :: "library \<Rightarrow> bookmaker \<Rightarrow> int" where
  "update_stamp lib book = (case updated_dt lib book of None \<Rightarrow> 0 | Some u \<Rightarrow> stamp u)"

text \<open>The test of line 169 on the prices extracted from a bet.\<close>

definition priced :: "library \<Rightarrow> bet \<Rightarrow> bool" where
  "priced lib b =
     (case extract_hda lib (bet_values b) of (H, D, A) \<Rightarrow> truthy H \<or> truthy D \<or> truthy A)"

text \<open>
  A record qualifies when it passes the three tests of lines 143, 154 and 169: the market
  is the match-winner market, the update time parses and is not after the kickoff, and
  some price is truthy.
\<close>

definition qualifies :: "library \<Rightarrow> datetime \<Rightarrow> bookmaker \<times> bet \<Rightarrow> bool" where
  "qualifies lib kickoff r =
     (is_1x2 lib (snd r) \<and>
      (case updated_dt lib (fst r) of None \<Rightarrow> False | Some u \<Rightarrow> dt_le u kickoff = Inr True) \<and>
      priced lib (snd r))"

text \<open>
  A record of the match-winner market clashes with the kickoff when its update time parses
  to a date-time that Python cannot compare with the kickoff (one naive, the other aware):
  the comparison of line 154 then raises \<open>TypeError\<close>. Update times that are instants on the
  time scale of the kickoff never clash.
\<close>

definition clash :: "library \<Rightarrow> datetime \<Rightarrow> bookmaker \<times> bet \<Rightarrow> bool" where
  "clash lib kickoff r =
     (is_1x2 lib (snd r) \<and>
      (case updated_dt lib (fst r) of None \<Rightarrow> False | Some u \<Rightarrow> dt_le u kickoff = Inl TypeError))"

text \<open>The first of the entries with the greatest time stamp.\<close>

fun first_latest :: "(int \<times> 'a) list \<Rightarrow> (int \<times> 'a) option" where
  "first_latest [] = None"
| "first_latest (x # xs) =
     (case first_latest xs of
        None \<Rightarrow> Some x
      | Some y \<Rightarrow> if fst x < fst y then Some y else Some x)"

definition cands ::
  "library \<Rightarrow> datetime \<Rightarrow> (bookmaker \<times> bet) list \<Rightarrow> (int \<times> triple) list" where
  "cands lib kickoff rs =
     map (\<lambda>r. (update_stamp lib (fst r), extract_hda lib (bet_values (snd r))))
       (filter (qualifies lib kickoff) rs)"

definition chosen :: "(int \<times> triple) list \<Rightarrow> triple" where
  "chosen cs = (case first_latest cs of None \<Rightarrow> (None, None, None) | Some y \<Rightarrow> snd y)"

text \<open>The update of \<open>best_dt\<close> and \<open>best_triple\<close> of lines 170 to 172, on time stamps.\<close>

definition upd :: "int \<times> 'a \<Rightarrow> (int \<times> 'a) option \<Rightarrow> (int \<times> 'a) option" where
  "upd x acc = (case acc of None \<Rightarrow> Some x | Some a \<Rightarrow> if fst a < fst x then Some x else Some a)"

fun like :: "datetime \<Rightarrow> int \<Rightarrow> datetime" where
  "like (Naive _) t = Naive t"
| "like (Aware _) t = Aware t"

definition rep :: "datetime \<Rightarrow> (int \<times> triple) option \<Rightarrow> best" where
  "rep kickoff acc =
     (case acc of
        None \<Rightarrow> (None, (None, None, None))
      | Some a \<Rightarrow> (Some (like kickoff (fst a)), snd a))"

text \<open>A bookmaker is late when its update time parses and is strictly after the kickoff.\<close>

definition late :: "library \<Rightarrow> datetime \<Rightarrow> bookmaker \<Rightarrow> bool" where
  "late lib kickoff book =
     (case updated_dt lib book of None \<Rightarrow> False | Some u \<Rightarrow> dt_le u kickoff = Inr False)"

text \<open>The response without its late bookmakers, and without its bets of falsy prices.\<close>

definition drop_late :: "library \<Rightarrow> datetime \<Rightarrow> odds_fixture list \<Rightarrow> odds_fixture list" where
  "drop_late lib kickoff resp =
     map (\<lambda>fx. fx \<lparr> bookmakers := filter (\<lambda>book. \<not> late lib kickoff book) (bookmakers fx) \<rparr>) resp"

definition drop_unpriced :: "library \<Rightarrow> odds_fixture list \<Rightarrow> odds_fixture list" where
  "drop_unpriced lib resp =
     map (\<lambda>fx. fx \<lparr> bookmakers :=
            map (\<lambda>book. book \<lparr> book_bets := filter (priced lib) (book_bets book) \<rparr>)
              (bookmakers fx) \<rparr>) resp"

subsection \<open>Outcome labels\<close>

definition label_of :: "library \<Rightarrow> val \<Rightarrow> string" where
  "label_of lib v = lower lib (strip lib (val_value v))"

definition is_home :: "library \<Rightarrow> val \<Rightarrow> bool" where
  "is_home lib v = (label_of lib v = ''home'' \<or> label_of lib v = ''1'')"

definition is_draw :: "library \<Rightarrow> val \<Rightarrow> bool" where
  "is_draw lib v = (label_of lib v = ''draw'' \<or> label_of lib v = ''x'')"

definition is_away :: "library \<Rightarrow> val \<Rightarrow> bool" where
  "is_away lib v = (label_of lib v = ''away'' \<or> label_of lib v = ''2'')"

text \<open>The price of the last pair of the list whose label satisfies \<open>P\<close>.\<close>

definition last_price :: "library \<Rightarrow> (val \<Rightarrow> bool) \<Rightarrow> val list \<Rightarrow> price" where
  "last_price lib P vs =
     (case rev (filter P vs) of [] \<Rightarrow> None | v # _ \<Rightarrow> odd_of lib v)"

subsection \<open>Example data\<close>

text \<open>
  Two finite tables that agree with \<open>datetime.fromisoformat\<close> and with \<open>float\<close> on the
  strings of the examples (times in microseconds since 1970-01-01T00:00:00 UTC).
\<close>

definition iso_example :: iso_parser where
  "iso_example s =
     map_of
       [(''2024-08-09T12:00:00+00:00'', Aware 1723204800000000),
        (''2024-08-10T14:00:00+00:00'', Aware 1723298400000000),
        (''2024-08-10T15:00:00+00:00'', Aware 1723302000000000),
        (''2024-08-10T16:00:00+00:00'', Aware 1723305600000000)] s"

definition float_example :: float_parser where
  "float_example s =
     map_of
       [(''1.85'', 1.85), (''3.40'', 3.4), (''4.20'', 4.2),
        (''2.10'', 2.1), (''3.30'', 3.3), (''3.60'', 3.6), (''0'', 0)] s"

text \<open>
  The library of the examples: the two tables, the ASCII versions of \<open>str.lower\<close> and
  \<open>str.strip\<close>, a conversion of the dates through the table, and the identity for the sort
  (no example sorts a frame).
\<close>

definition to_datetime_example :: "date_cell list \<Rightarrow> exc + datetime option list" where
  "to_datetime_example cells =
     Inr (map (\<lambda>c. case c of DateText (Some s) \<Rightarrow> iso_example s | DateText None \<Rightarrow> None
                     | DateTime d \<Rightarrow> d) cells)"

definition lib_example :: library where
  "lib_example =
     \<lparr> fromisoformat = iso_example, to_float = float_example,
       lower = ascii_lower, strip = ascii_strip,
       to_datetime = to_datetime_example, sort_values = (\<lambda>df. df) \<rparr>"

definition odds_val :: "string \<Rightarrow> string \<Rightarrow> val" where
  "odds_val label s = \<lparr> val_value = label, val_odd = Some s \<rparr>"

definition winner_bet :: "string \<Rightarrow> string \<Rightarrow> string \<Rightarrow> bet" where
  "winner_bet h d a =
     \<lparr> bet_name = ''Match Winner'',
       bet_values = [odds_val ''Home'' h, odds_val ''Draw'' d, odds_val ''Away'' a] \<rparr>"

definition book_at :: "string \<Rightarrow> bet list \<Rightarrow> bookmaker" where
  "book_at updated bets = \<lparr> book_update = updated, book_bets = bets \<rparr>"

definition resp_of :: "bookmaker list \<Rightarrow> odds_fixture list" where
  "resp_of books = [\<lparr> bookmakers = books \<rparr>]"

text \<open>A fixture not yet played and a row with an outcome and a side, for the examples.\<close>

definition fixture_example :: "int \<Rightarrow> string \<Rightarrow> string \<Rightarrow> string \<Rightarrow> string \<Rightarrow> fixture" where
  "fixture_example ident date league home away =
     \<lparr> fx_id = Some ident, fx_date = Value date, fx_timestamp = None, fx_status = Some ''NS'',
       league_name = Value league, league_season = Some 2024, league_round = None,
       home_name = Some home, away_name = Some away, goals_home = None, goals_away = None \<rparr>"


subsection \<open>League names\<close>

section \<open>Iteration and the selection of the latest entry\<close>

lemma for_each_append:
  "for_each body (xs @ ys) st =
     (case for_each body xs st of Inl e \<Rightarrow> Inl e | Inr st' \<Rightarrow> for_each body ys st')"
  by (induction xs arbitrary: st) (auto split: sum.splits)

lemma for_each_inner:
  "for_each (\<lambda>y. g x y) ys st = for_each (\<lambda>r. g (fst r) (snd r)) (map (Pair x) ys) st"
  by (induction ys arbitrary: st) (auto split: sum.splits)

lemma for_each_nested:
  "for_each (\<lambda>x. for_each (g x) (f x)) xs st =
   for_each (\<lambda>r. g (fst r) (snd r)) (concat (map (\<lambda>x. map (Pair x) (f x)) xs)) st"
proof (induction xs arbitrary: st)
  case Nil
  show ?case by simp
next
  case (Cons x xs)
  show ?case
    using Cons.IH for_each_inner [of g x "f x"]
    by (simp add: for_each_append split: sum.splits)
qed

lemma for_each_concat:
  "for_each (\<lambda>x. for_each body (f x)) xs st = for_each body (concat (map f xs)) st"
  by (induction xs arbitrary: st) (auto simp: for_each_append split: sum.splits)

lemma nested_flat:
  "for_each (fixture_loop lib kickoff) resp st =
   for_each (\<lambda>r. bet_step lib kickoff (fst r) (snd r)) (records_of resp) st"
proof -
  have book: "book_loop lib kickoff =
      (\<lambda>book. for_each (bet_step lib kickoff book) (book_bets book))"
    by (rule ext)+ (simp add: book_loop_def)
  have fx: "fixture_loop lib kickoff =
      (\<lambda>fx. for_each (\<lambda>r. bet_step lib kickoff (fst r) (snd r))
               (concat (map (\<lambda>book. map (Pair book) (book_bets book)) (bookmakers fx))))"
    by (rule ext)+ (simp add: fixture_loop_def book for_each_nested)
  show ?thesis
    unfolding fx records_of_def by (rule for_each_concat)
qed

lemma fold_upd:
  "fold upd cs acc = (case first_latest cs of None \<Rightarrow> acc | Some y \<Rightarrow> upd y acc)"
  by (induction cs arbitrary: acc) (auto simp: upd_def split: option.splits)

lemma bet_step_rep:
  assumes "\<not> clash lib kickoff r"
  shows "bet_step lib kickoff (fst r) (snd r) (rep kickoff acc) =
         Inr (rep kickoff
               (if qualifies lib kickoff r
                then upd (update_stamp lib (fst r), extract_hda lib (bet_values (snd r))) acc
                else acc))"
proof (cases "is_1x2 lib (snd r)")
  case False
  then show ?thesis by (simp add: bet_step_def qualifies_def)
next
  case m: True
  show ?thesis
  proof (cases "updated_dt lib (fst r)")
    case None
    then show ?thesis using m by (simp add: bet_step_def qualifies_def)
  next
    case (Some u)
    obtain H D A where t: "extract_hda lib (bet_values (snd r)) = (H, D, A)"
      by (cases "extract_hda lib (bet_values (snd r))") auto
    from assms m Some have nc: "dt_le u kickoff \<noteq> Inl TypeError"
      by (simp add: clash_def)
    show ?thesis
      using m Some t nc
      by (cases u; cases kickoff; cases acc)
         (auto simp: bet_step_def qualifies_def priced_def rep_def upd_def update_stamp_def
            split: bool.splits)
  qed
qed

lemma for_each_rep:
  assumes "\<forall>r \<in> set rs. \<not> clash lib kickoff r"
  shows "for_each (\<lambda>r. bet_step lib kickoff (fst r) (snd r)) rs (rep kickoff acc) =
         Inr (rep kickoff (fold upd (cands lib kickoff rs) acc))"
  using assms
proof (induction rs arbitrary: acc)
  case Nil
  show ?case by (simp add: cands_def)
next
  case (Cons r rs)
  then show ?case
    by (simp add: bet_step_rep cands_def)
qed

lemma pick_chosen:
  assumes "fromisoformat lib (replace_Z kickoff_iso) = Some kickoff"
    and "\<forall>r \<in> set (records_of resp). \<not> clash lib kickoff r"
  shows "pick_prematch_1x2 lib resp kickoff_iso =
         Inr (chosen (cands lib kickoff (records_of resp)))"
proof -
  have "for_each (fixture_loop lib kickoff) resp (None, (None, None, None)) =
        Inr (rep kickoff (fold upd (cands lib kickoff (records_of resp)) None))"
    using for_each_rep [OF assms(2), where acc = None]
    by (simp add: nested_flat rep_def)
  then show ?thesis
    using assms(1)
    by (auto simp: pick_prematch_1x2_def chosen_def fold_upd upd_def rep_def
          records_of_def cands_def split: option.splits)
qed

lemma first_latest_None: "first_latest cs = None \<longleftrightarrow> cs = []"
  by (cases cs) (auto split: option.splits)

lemma first_latest_max:
  "first_latest cs = Some y \<Longrightarrow> y \<in> set cs \<and> (\<forall>x \<in> set cs. fst x \<le> fst y)"
  by (induction cs arbitrary: y) (fastforce simp: first_latest_None split: option.splits if_splits)+

lemma first_latest_first:
  "first_latest cs = Some y \<Longrightarrow>
     \<exists>pre post. cs = pre @ y # post \<and> (\<forall>x \<in> set pre. fst x < fst y)"
proof (induction cs arbitrary: y)
  case Nil
  then show ?case by simp
next
  case (Cons x xs)
  show ?case
  proof (cases "first_latest xs")
    case None
    with Cons.prems have "y = x" by simp
    then show ?thesis by (intro exI [of _ "[]"] exI [of _ xs]) simp
  next
    case (Some z)
    show ?thesis
    proof (cases "fst x < fst z")
      case True
      with Some Cons.prems have yz: "y = z" by simp
      from Cons.IH [OF Some] obtain pre post
        where "xs = pre @ z # post" "\<forall>x \<in> set pre. fst x < fst z" by blast
      with True yz show ?thesis
        by (intro exI [of _ "x # pre"] exI [of _ post]) simp
    next
      case False
      with Some Cons.prems have "y = x" by simp
      then show ?thesis by (intro exI [of _ "[]"] exI [of _ xs]) simp
    qed
  qed
qed

lemmas pick_eval =
  records_of_def clash_def qualifies_def priced_def update_stamp_def updated_dt_def
  is_1x2_def extract_hda_def set_hda_def odd_of_def truthy_def ascii_lower_def ascii_lower_char_def
  ascii_strip_def is_space_def replace_Z_def lib_example_def iso_example_def float_example_def
  odds_val_def winner_bet_def book_at_def resp_of_def

lemma cands_append:
  "cands lib kickoff (xs @ ys) =
   cands lib kickoff xs @ cands lib kickoff ys"
  by (simp add: cands_def)

lemma first_latest_split:
  assumes "\<forall>x \<in> set pre. fst x < fst y" and "\<forall>x \<in> set post. fst x \<le> fst y"
  shows "first_latest (pre @ y # post) = Some y"
  using assms(1)
proof (induction pre)
  case Nil
  show ?case
  proof (cases "first_latest post")
    case None
    then show ?thesis by simp
  next
    case (Some z)
    with first_latest_max [OF Some] assms(2) have "fst z \<le> fst y" by blast
    with Some show ?thesis by simp
  qed
next
  case (Cons x pre)
  then show ?case by simp
qed

section \<open>Properties of the selector\<close>

text \<open>
  Claim C1. Let the kickoff string parse to a date-time and let no record clash with it.
  If some record of the response qualifies (match-winner market, update time parsed and not
  after the kickoff, some price truthy), then \<open>pick_prematch_1x2\<close> returns the triple
  extracted from a qualifying record whose update instant is the latest: no qualifying
  record has a later one. In particular, when the records of the response are two
  qualifying records with update instants \<open>T1 < T2\<close> (both not after the kickoff, both
  with a truthy price), in either order, the triple of the record of \<open>T2\<close> is returned.
\<close>

theorem pick_latest_qualifying:
  assumes "fromisoformat lib (replace_Z kickoff_iso) = Some kickoff"
    and "\<forall>r \<in> set (records_of resp). \<not> clash lib kickoff r"
  shows "((\<exists>r \<in> set (records_of resp). qualifies lib kickoff r) \<longrightarrow>
          (\<exists>r \<in> set (records_of resp).
             qualifies lib kickoff r \<and>
             pick_prematch_1x2 lib resp kickoff_iso =
               Inr (extract_hda lib (bet_values (snd r))) \<and>
             (\<forall>r' \<in> set (records_of resp).
                qualifies lib kickoff r' \<longrightarrow>
                update_stamp lib (fst r') \<le> update_stamp lib (fst r)))) \<and>
         ((records_of resp = [r1, r2] \<or> records_of resp = [r2, r1]) \<and>
          qualifies lib kickoff r1 \<and> qualifies lib kickoff r2 \<and>
          update_stamp lib (fst r1) < update_stamp lib (fst r2) \<longrightarrow>
            pick_prematch_1x2 lib resp kickoff_iso =
              Inr (extract_hda lib (bet_values (snd r2))))"
proof -
  let ?rs = "records_of resp"
  let ?cs = "cands lib kickoff ?rs"
  have latest: "\<exists>r \<in> set ?rs.
      qualifies lib kickoff r \<and>
      pick_prematch_1x2 lib resp kickoff_iso =
        Inr (extract_hda lib (bet_values (snd r))) \<and>
      (\<forall>r' \<in> set ?rs.
         qualifies lib kickoff r' \<longrightarrow>
         update_stamp lib (fst r') \<le> update_stamp lib (fst r))"
    if some: "\<exists>r \<in> set ?rs. qualifies lib kickoff r"
  proof -
    from some have "?cs \<noteq> []"
      by (auto simp: cands_def filter_empty_conv)
    then obtain y where fl: "first_latest ?cs = Some y"
      by (cases "first_latest ?cs") (auto simp: first_latest_None)
    from first_latest_max [OF fl]
    have mem: "y \<in> set ?cs" and top: "\<forall>x \<in> set ?cs. fst x \<le> fst y" by blast+
    from mem obtain r where r: "r \<in> set ?rs" "qualifies lib kickoff r"
      and y: "y = (update_stamp lib (fst r), extract_hda lib (bet_values (snd r)))"
      by (auto simp: cands_def)
    have res: "pick_prematch_1x2 lib resp kickoff_iso =
        Inr (extract_hda lib (bet_values (snd r)))"
      using pick_chosen [OF assms(1) assms(2)] fl y by (simp add: chosen_def)
    have "update_stamp lib (fst r') \<le> update_stamp lib (fst r)"
      if "r' \<in> set ?rs" "qualifies lib kickoff r'" for r'
    proof -
      from that have
        "(update_stamp lib (fst r'), extract_hda lib (bet_values (snd r'))) \<in> set ?cs"
        by (auto simp: cands_def)
      with top y show ?thesis by fastforce
    qed
    with r res show ?thesis by blast
  qed
  have two: "pick_prematch_1x2 lib resp kickoff_iso =
      Inr (extract_hda lib (bet_values (snd r2)))"
    if a: "(?rs = [r1, r2] \<or> ?rs = [r2, r1]) \<and>
      qualifies lib kickoff r1 \<and> qualifies lib kickoff r2 \<and>
      update_stamp lib (fst r1) < update_stamp lib (fst r2)"
  proof -
    from a have mem: "set ?rs = {r1, r2}" by auto
    with a have "\<exists>r \<in> set ?rs. qualifies lib kickoff r" by blast
    from latest [OF this] obtain r where r: "r \<in> set ?rs"
      and res: "pick_prematch_1x2 lib resp kickoff_iso =
        Inr (extract_hda lib (bet_values (snd r)))"
      and top: "\<forall>r' \<in> set ?rs. qualifies lib kickoff r' \<longrightarrow>
        update_stamp lib (fst r') \<le> update_stamp lib (fst r)"
      by blast
    from top mem a have "update_stamp lib (fst r2) \<le> update_stamp lib (fst r)"
      by simp
    with a have "r \<noteq> r1" by auto
    with r mem have "r = r2" by simp
    with res show ?thesis by simp
  qed
  from latest two show ?thesis by blast
qed

theorem pick_latest_qualifying_witness:
  "fromisoformat lib_example (replace_Z ''2024-08-10T15:00:00Z'') = Some (Aware 1723302000000000) \<and>
   \<not> clash lib_example (Aware 1723302000000000)
       (book_at ''2024-08-09T12:00:00+00:00'' [winner_bet ''1.85'' ''3.40'' ''4.20''],
        winner_bet ''1.85'' ''3.40'' ''4.20'') \<and>
   \<not> clash lib_example (Aware 1723302000000000)
       (book_at ''2024-08-10T14:00:00+00:00'' [winner_bet ''2.10'' ''3.30'' ''3.60''],
        winner_bet ''2.10'' ''3.30'' ''3.60'') \<and>
   qualifies lib_example (Aware 1723302000000000)
       (book_at ''2024-08-09T12:00:00+00:00'' [winner_bet ''1.85'' ''3.40'' ''4.20''],
        winner_bet ''1.85'' ''3.40'' ''4.20'') \<and>
   qualifies lib_example (Aware 1723302000000000)
       (book_at ''2024-08-10T14:00:00+00:00'' [winner_bet ''2.10'' ''3.30'' ''3.60''],
        winner_bet ''2.10'' ''3.30'' ''3.60'') \<and>
   pick_prematch_1x2 lib_example
     (resp_of
        [book_at ''2024-08-09T12:00:00+00:00'' [winner_bet ''1.85'' ''3.40'' ''4.20''],
         book_at ''2024-08-10T14:00:00+00:00'' [winner_bet ''2.10'' ''3.30'' ''3.60'']])
     ''2024-08-10T15:00:00Z'' = Inr (Some 2.1, Some 3.3, Some 3.6)"
proof -
  let ?v1 = "winner_bet ''1.85'' ''3.40'' ''4.20''"
  let ?v2 = "winner_bet ''2.10'' ''3.30'' ''3.60''"
  let ?b1 = "book_at ''2024-08-09T12:00:00+00:00'' [?v1]"
  let ?b2 = "book_at ''2024-08-10T14:00:00+00:00'' [?v2]"
  let ?resp = "resp_of [?b1, ?b2]"
  let ?k = "Aware 1723302000000000"
  have h1: "fromisoformat lib_example (replace_Z ''2024-08-10T15:00:00Z'') = Some ?k"
    by (simp add: pick_eval)
  have recs: "records_of ?resp = [(?b1, ?v1), (?b2, ?v2)]"
    by (simp add: records_of_def resp_of_def book_at_def)
  have c1: "\<not> clash lib_example ?k (?b1, ?v1)" by (simp add: pick_eval)
  have c2: "\<not> clash lib_example ?k (?b2, ?v2)" by (simp add: pick_eval)
  have q1: "qualifies lib_example ?k (?b1, ?v1)" by (simp add: pick_eval)
  have q2: "qualifies lib_example ?k (?b2, ?v2)" by (simp add: pick_eval)
  have s: "update_stamp lib_example (fst (?b1, ?v1)) < update_stamp lib_example (fst (?b2, ?v2))"
    by (simp add: pick_eval)
  have e2: "extract_hda lib_example (bet_values ?v2) = (Some 2.1, Some 3.3, Some 3.6)"
    by (simp add: pick_eval)
  have h2: "\<forall>r \<in> set (records_of ?resp). \<not> clash lib_example ?k r"
    unfolding recs using c1 c2 by simp
  from pick_latest_qualifying [OF h1 h2, of "(?b1, ?v1)" "(?b2, ?v2)"] recs q1 q2 s
  have "pick_prematch_1x2 lib_example ?resp ''2024-08-10T15:00:00Z'' =
      Inr (extract_hda lib_example (bet_values (snd (?b2, ?v2))))"
    by blast
  with e2 have c: "pick_prematch_1x2 lib_example ?resp ''2024-08-10T15:00:00Z'' =
      Inr (Some 2.1, Some 3.3, Some 3.6)"
    by simp
  show ?thesis by (intro conjI h1 c1 c2 q1 q2 c)
qed

lemma for_each_id:
  assumes "\<forall>x \<in> set xs. \<forall>s. body x s = Inr s"
  shows "for_each body xs st = Inr st"
  using assms by (induction xs) auto

lemma for_each_filter_id:
  assumes "\<forall>x \<in> set xs. \<not> P x \<longrightarrow> (\<forall>s. body x s = Inr s)"
  shows "for_each body (filter P xs) st = for_each body xs st"
  using assms by (induction xs arbitrary: st) (auto split: sum.splits)

lemma for_each_map:
  "for_each body (map f xs) st = for_each (\<lambda>x. body (f x)) xs st"
  by (induction xs arbitrary: st) (auto split: sum.splits)

lemma for_each_cong:
  assumes "\<forall>x \<in> set xs. \<forall>s. body x s = body' x s"
  shows "for_each body xs st = for_each body' xs st"
  using assms by (induction xs arbitrary: st) (auto split: sum.splits)

lemma bet_step_late:
  "late lib kickoff book \<Longrightarrow> bet_step lib kickoff book b st = Inr st"
  by (auto simp: late_def bet_step_def split: option.splits)

lemma book_loop_late:
  "late lib kickoff book \<Longrightarrow> book_loop lib kickoff book st = Inr st"
  unfolding book_loop_def by (rule for_each_id) (simp add: bet_step_late)

lemma fixture_loop_drop_late:
  "fixture_loop lib kickoff
     (fx \<lparr> bookmakers := filter (\<lambda>book. \<not> late lib kickoff book) (bookmakers fx) \<rparr>) st =
   fixture_loop lib kickoff fx st"
  unfolding fixture_loop_def
  using for_each_filter_id
    [of "bookmakers fx" "\<lambda>book. \<not> late lib kickoff book" "book_loop lib kickoff" st]
  by (simp add: book_loop_late)

lemma pick_single:
  assumes "fromisoformat lib (replace_Z kickoff_iso) = Some kickoff" and "book_bets book = [b]"
  shows "pick_prematch_1x2 lib [\<lparr> bookmakers = [book] \<rparr>] kickoff_iso =
         (case bet_step lib kickoff book b (None, (None, None, None)) of
            Inl e \<Rightarrow> Inl e | Inr st \<Rightarrow> Inr (snd st))"
  using assms
  by (simp add: pick_prematch_1x2_def fixture_loop_def book_loop_def split: sum.splits)

lemma dt_le_refl: "dt_le u u = Inr True"
  by (cases u) simp_all

text \<open>
  Claim C2. Let the kickoff string parse. A bookmaker whose update time is strictly after
  the kickoff has no influence on the result: \<open>pick_prematch_1x2\<close> returns on the response
  what it returns on the response without its late bookmakers. When every bookmaker of the
  response is late, for instance when a late bookmaker is the only record, the result is
  the triple of absent prices. A record of the match-winner market with a truthy price
  whose update time is the kickoff itself is selected when it is alone.
\<close>

theorem late_never_selected:
  assumes "fromisoformat lib (replace_Z kickoff_iso) = Some kickoff"
  shows "pick_prematch_1x2 lib resp kickoff_iso =
           pick_prematch_1x2 lib (drop_late lib kickoff resp) kickoff_iso \<and>
         ((\<forall>fx \<in> set resp. \<forall>book \<in> set (bookmakers fx). late lib kickoff book) \<longrightarrow>
            pick_prematch_1x2 lib resp kickoff_iso = Inr (None, None, None)) \<and>
         (updated_dt lib book = Some kickoff \<and> book_bets book = [b] \<and> is_1x2 lib b \<and>
          priced lib b \<longrightarrow>
            pick_prematch_1x2 lib [\<lparr> bookmakers = [book] \<rparr>] kickoff_iso =
              Inr (extract_hda lib (bet_values b)))"
proof (intro conjI impI)
  have "for_each (fixture_loop lib kickoff) (drop_late lib kickoff resp) st =
        for_each (fixture_loop lib kickoff) resp st" for st
    unfolding drop_late_def for_each_map
    by (rule for_each_cong) (simp add: fixture_loop_drop_late)
  moreover have "drop_late lib kickoff resp = [] \<longleftrightarrow> resp = []"
    by (simp add: drop_late_def)
  ultimately show "pick_prematch_1x2 lib resp kickoff_iso =
      pick_prematch_1x2 lib (drop_late lib kickoff resp) kickoff_iso"
    using assms by (simp add: pick_prematch_1x2_def)
next
  assume all: "\<forall>fx \<in> set resp. \<forall>book \<in> set (bookmakers fx). late lib kickoff book"
  have "fixture_loop lib kickoff fx s = Inr s" if "fx \<in> set resp" for fx s
    unfolding fixture_loop_def using all that
    by (intro for_each_id) (simp add: book_loop_late)
  then have "for_each (fixture_loop lib kickoff) resp st = Inr st" for st
    by (intro for_each_id) simp
  with assms show "pick_prematch_1x2 lib resp kickoff_iso = Inr (None, None, None)"
    by (simp add: pick_prematch_1x2_def)
next
  assume a: "updated_dt lib book = Some kickoff \<and> book_bets book = [b] \<and> is_1x2 lib b \<and>
    priced lib b"
  obtain H D A where t: "extract_hda lib (bet_values b) = (H, D, A)"
    by (cases "extract_hda lib (bet_values b)") auto
  with a have "bet_step lib kickoff book b (None, (None, None, None)) =
      Inr (Some kickoff, (H, D, A))"
    by (auto simp: bet_step_def dt_le_refl priced_def)
  with a t pick_single [where lib = lib and kickoff_iso = kickoff_iso and
      kickoff = kickoff and book = book and b = b] assms
  show "pick_prematch_1x2 lib [\<lparr> bookmakers = [book] \<rparr>] kickoff_iso =
      Inr (extract_hda lib (bet_values b))"
    by simp
qed

theorem late_never_selected_witness:
  "fromisoformat lib_example (replace_Z ''2024-08-10T15:00:00Z'') = Some (Aware 1723302000000000) \<and>
   late lib_example (Aware 1723302000000000)
     (book_at ''2024-08-10T16:00:00+00:00'' [winner_bet ''1.85'' ''3.40'' ''4.20'']) \<and>
   pick_prematch_1x2 lib_example
     (resp_of [book_at ''2024-08-10T16:00:00+00:00'' [winner_bet ''1.85'' ''3.40'' ''4.20'']])
     ''2024-08-10T15:00:00Z'' = Inr (None, None, None) \<and>
   pick_prematch_1x2 lib_example
     (resp_of [book_at ''2024-08-10T15:00:00+00:00'' [winner_bet ''2.10'' ''3.30'' ''3.60'']])
     ''2024-08-10T15:00:00Z'' = Inr (Some 2.1, Some 3.3, Some 3.6)"
proof -
  let ?late = "book_at ''2024-08-10T16:00:00+00:00'' [winner_bet ''1.85'' ''3.40'' ''4.20'']"
  let ?b = "winner_bet ''2.10'' ''3.30'' ''3.60''"
  let ?at = "book_at ''2024-08-10T15:00:00+00:00'' [?b]"
  let ?k = "Aware 1723302000000000"
  have h: "fromisoformat lib_example (replace_Z ''2024-08-10T15:00:00Z'') = Some ?k"
    by (simp add: pick_eval)
  have l: "late lib_example ?k ?late"
    by (simp add: late_def pick_eval)
  note inst = late_never_selected [where lib = lib_example and
      kickoff_iso = "''2024-08-10T15:00:00Z''" and kickoff = ?k and
      resp = "resp_of [?late]" and book = ?at and b = ?b, OF h]
  have all: "\<forall>fx \<in> set (resp_of [?late]). \<forall>book \<in> set (bookmakers fx). late lib_example ?k book"
    using l by (simp add: resp_of_def)
  from inst all have r1: "pick_prematch_1x2 lib_example (resp_of [?late])
      ''2024-08-10T15:00:00Z'' = Inr (None, None, None)"
    by blast
  have pre: "updated_dt lib_example ?at = Some ?k \<and> book_bets ?at = [?b] \<and> is_1x2 lib_example ?b \<and>
      priced lib_example ?b"
    by (simp add: pick_eval)
  have e: "extract_hda lib_example (bet_values ?b) = (Some 2.1, Some 3.3, Some 3.6)"
    by (simp add: pick_eval)
  from inst pre have "pick_prematch_1x2 lib_example [\<lparr> bookmakers = [?at] \<rparr>]
      ''2024-08-10T15:00:00Z'' = Inr (extract_hda lib_example (bet_values ?b))"
    by blast
  with e have r2: "pick_prematch_1x2 lib_example (resp_of [?at])
      ''2024-08-10T15:00:00Z'' = Inr (Some 2.1, Some 3.3, Some 3.6)"
    by (simp add: resp_of_def)
  show ?thesis by (intro conjI h l r1 r2)
qed

text \<open>
  Claim C3. Let the kickoff string parse and let no record clash with it. If a qualifying
  record is such that every qualifying record visited before it has a strictly earlier
  update instant and no qualifying record visited after it has a later one (some may have
  the same), then its triple is returned: among the records that share the latest
  instant the first one seen wins, since line 170 replaces the best record only on a
  strictly greater instant.
\<close>

theorem tie_first_seen_wins:
  assumes "fromisoformat lib (replace_Z kickoff_iso) = Some kickoff"
    and "\<forall>r \<in> set (records_of resp). \<not> clash lib kickoff r"
    and "records_of resp = before @ r # after"
    and "qualifies lib kickoff r"
    and "\<forall>r' \<in> set before. qualifies lib kickoff r' \<longrightarrow>
           update_stamp lib (fst r') < update_stamp lib (fst r)"
    and "\<forall>r' \<in> set after. qualifies lib kickoff r' \<longrightarrow>
           update_stamp lib (fst r') \<le> update_stamp lib (fst r)"
  shows "pick_prematch_1x2 lib resp kickoff_iso =
           Inr (extract_hda lib (bet_values (snd r)))"
proof -
  let ?y = "(update_stamp lib (fst r), extract_hda lib (bet_values (snd r)))"
  have split: "cands lib kickoff (records_of resp) =
      cands lib kickoff before @ ?y # cands lib kickoff after"
    using assms(3,4) by (simp add: cands_def)
  have b: "\<forall>x \<in> set (cands lib kickoff before). fst x < fst ?y"
    using assms(5) by (auto simp: cands_def)
  have a: "\<forall>x \<in> set (cands lib kickoff after). fst x \<le> fst ?y"
    using assms(6) by (auto simp: cands_def)
  have "first_latest (cands lib kickoff (records_of resp)) = Some ?y"
    unfolding split by (rule first_latest_split [OF b a])
  with pick_chosen [OF assms(1,2)] show ?thesis
    by (simp add: chosen_def)
qed

theorem tie_first_seen_wins_witness:
  "records_of (resp_of
      [book_at ''2024-08-10T14:00:00+00:00'' [winner_bet ''1.85'' ''3.40'' ''4.20''],
       book_at ''2024-08-10T14:00:00+00:00'' [winner_bet ''2.10'' ''3.30'' ''3.60'']]) =
     [] @ (book_at ''2024-08-10T14:00:00+00:00'' [winner_bet ''1.85'' ''3.40'' ''4.20''],
           winner_bet ''1.85'' ''3.40'' ''4.20'') #
     [(book_at ''2024-08-10T14:00:00+00:00'' [winner_bet ''2.10'' ''3.30'' ''3.60''],
       winner_bet ''2.10'' ''3.30'' ''3.60'')] \<and>
   qualifies lib_example (Aware 1723302000000000)
     (book_at ''2024-08-10T14:00:00+00:00'' [winner_bet ''1.85'' ''3.40'' ''4.20''],
      winner_bet ''1.85'' ''3.40'' ''4.20'') \<and>
   qualifies lib_example (Aware 1723302000000000)
     (book_at ''2024-08-10T14:00:00+00:00'' [winner_bet ''2.10'' ''3.30'' ''3.60''],
      winner_bet ''2.10'' ''3.30'' ''3.60'') \<and>
   pick_prematch_1x2 lib_example
     (resp_of
        [book_at ''2024-08-10T14:00:00+00:00'' [winner_bet ''1.85'' ''3.40'' ''4.20''],
         book_at ''2024-08-10T14:00:00+00:00'' [winner_bet ''2.10'' ''3.30'' ''3.60'']])
     ''2024-08-10T15:00:00Z'' = Inr (Some 1.85, Some 3.4, Some 4.2)"
proof -
  let ?v1 = "winner_bet ''1.85'' ''3.40'' ''4.20''"
  let ?v2 = "winner_bet ''2.10'' ''3.30'' ''3.60''"
  let ?b1 = "book_at ''2024-08-10T14:00:00+00:00'' [?v1]"
  let ?b2 = "book_at ''2024-08-10T14:00:00+00:00'' [?v2]"
  let ?resp = "resp_of [?b1, ?b2]"
  let ?k = "Aware 1723302000000000"
  have h1: "fromisoformat lib_example (replace_Z ''2024-08-10T15:00:00Z'') = Some ?k"
    by (simp add: pick_eval)
  have recs: "records_of ?resp = [] @ (?b1, ?v1) # [(?b2, ?v2)]"
    by (simp add: records_of_def resp_of_def book_at_def)
  have c1: "\<not> clash lib_example ?k (?b1, ?v1)" by (simp add: pick_eval)
  have c2: "\<not> clash lib_example ?k (?b2, ?v2)" by (simp add: pick_eval)
  have q1: "qualifies lib_example ?k (?b1, ?v1)" by (simp add: pick_eval)
  have q2: "qualifies lib_example ?k (?b2, ?v2)" by (simp add: pick_eval)
  have s: "update_stamp lib_example ?b2 = update_stamp lib_example ?b1"
    by (simp add: update_stamp_def updated_dt_def book_at_def)
  have e1: "extract_hda lib_example (bet_values ?v1) = (Some 1.85, Some 3.4, Some 4.2)"
    by (simp add: pick_eval)
  have h2: "\<forall>r \<in> set (records_of ?resp). \<not> clash lib_example ?k r"
    unfolding recs using c1 c2 by simp
  have h5: "\<forall>r' \<in> set []. qualifies lib_example ?k r' \<longrightarrow>
      update_stamp lib_example (fst r') < update_stamp lib_example (fst (?b1, ?v1))"
    by simp
  have h6: "\<forall>r' \<in> set [(?b2, ?v2)]. qualifies lib_example ?k r' \<longrightarrow>
      update_stamp lib_example (fst r') \<le> update_stamp lib_example (fst (?b1, ?v1))"
    using s by simp
  have "pick_prematch_1x2 lib_example ?resp ''2024-08-10T15:00:00Z'' =
      Inr (extract_hda lib_example (bet_values (snd (?b1, ?v1))))"
    by (rule tie_first_seen_wins [OF h1 h2 recs q1 h5 h6])
  with e1 have c: "pick_prematch_1x2 lib_example ?resp ''2024-08-10T15:00:00Z'' =
      Inr (Some 1.85, Some 3.4, Some 4.2)"
    by simp
  show ?thesis by (intro conjI recs q1 q2 c)
qed

lemma for_each_filter_ok:
  assumes "for_each body xs st = Inr r"
    and "\<forall>x \<in> set xs. \<not> P x \<longrightarrow> (\<forall>s. body x s = Inr s \<or> (\<exists>e. body x s = Inl e))"
  shows "for_each body (filter P xs) st = Inr r"
  using assms
proof (induction xs arbitrary: st)
  case Nil
  then show ?case by simp
next
  case (Cons x xs)
  from Cons.prems(1) obtain s where s: "body x st = Inr s" "for_each body xs s = Inr r"
    by (auto split: sum.splits)
  from Cons.prems(2) have rest:
    "\<forall>x \<in> set xs. \<not> P x \<longrightarrow> (\<forall>s. body x s = Inr s \<or> (\<exists>e. body x s = Inl e))"
    by simp
  show ?case
  proof (cases "P x")
    case True
    with s Cons.IH [OF s(2) rest] show ?thesis by simp
  next
    case False
    with Cons.prems(2) have "body x st = Inr st \<or> (\<exists>e. body x st = Inl e)" by simp
    with s(1) have "s = st" by auto
    with False s Cons.IH [OF _ rest] show ?thesis by simp
  qed
qed

lemma for_each_ok_mono:
  assumes "for_each body xs st = Inr r"
    and "\<forall>x \<in> set xs. \<forall>s t. body x s = Inr t \<longrightarrow> body' x s = Inr t"
  shows "for_each body' xs st = Inr r"
  using assms
proof (induction xs arbitrary: st)
  case Nil
  then show ?case by simp
next
  case (Cons x xs)
  from Cons.prems(1) obtain s where s: "body x st = Inr s" "for_each body xs s = Inr r"
    by (auto split: sum.splits)
  with Cons.prems(2) have "body' x st = Inr s" by simp
  moreover from Cons.IH [OF s(2)] Cons.prems(2) have "for_each body' xs s = Inr r" by simp
  ultimately show ?case by simp
qed

lemma bet_step_unpriced:
  "\<not> priced lib b \<Longrightarrow>
     bet_step lib kickoff book b st = Inr st \<or>
     (\<exists>e. bet_step lib kickoff book b st = Inl e)"
  by (auto simp: bet_step_def priced_def split: option.splits sum.splits bool.splits)

lemma bet_step_update_only:
  "book_update book' = book_update book \<Longrightarrow>
     bet_step lib kickoff book' = bet_step lib kickoff book"
  by (rule ext)+ (simp add: bet_step_def updated_dt_def)

lemma book_loop_drop_unpriced:
  assumes "book_loop lib kickoff book st = Inr r"
  shows "book_loop lib kickoff
           (book \<lparr> book_bets := filter (priced lib) (book_bets book) \<rparr>) st = Inr r"
proof -
  have same: "bet_step lib kickoff
      (book \<lparr> book_bets := filter (priced lib) (book_bets book) \<rparr>) =
      bet_step lib kickoff book"
    by (rule bet_step_update_only) simp
  have "for_each (bet_step lib kickoff book)
      (filter (priced lib) (book_bets book)) st = Inr r"
    using assms unfolding book_loop_def
    by (rule for_each_filter_ok) (simp add: bet_step_unpriced)
  then show ?thesis by (simp add: book_loop_def same)
qed

lemma fixture_loop_drop_unpriced:
  assumes "fixture_loop lib kickoff fx st = Inr r"
  shows "fixture_loop lib kickoff
           (fx \<lparr> bookmakers :=
              map (\<lambda>book. book \<lparr> book_bets := filter (priced lib) (book_bets book) \<rparr>)
                (bookmakers fx) \<rparr>) st = Inr r"
proof -
  have "for_each
      (\<lambda>book. book_loop lib kickoff
         (book \<lparr> book_bets := filter (priced lib) (book_bets book) \<rparr>))
      (bookmakers fx) st = Inr r"
    using assms unfolding fixture_loop_def
    by (rule for_each_ok_mono) (simp add: book_loop_drop_unpriced)
  then show ?thesis by (simp add: fixture_loop_def for_each_map)
qed

lemma pick_drop_unpriced:
  assumes "pick_prematch_1x2 lib resp kickoff_iso = Inr t"
  shows "pick_prematch_1x2 lib (drop_unpriced lib resp) kickoff_iso = Inr t"
proof (cases "resp = []")
  case True
  with assms show ?thesis by (simp add: drop_unpriced_def pick_prematch_1x2_def)
next
  case False
  with assms obtain kickoff st where k: "fromisoformat lib (replace_Z kickoff_iso) = Some kickoff"
    and run: "for_each (fixture_loop lib kickoff) resp
        (None, (None, None, None)) = Inr st"
    and t: "t = snd st"
    by (auto simp: pick_prematch_1x2_def split: option.splits sum.splits)
  have "for_each
      (\<lambda>fx. fixture_loop lib kickoff
         (fx \<lparr> bookmakers :=
            map (\<lambda>book. book \<lparr> book_bets := filter (priced lib) (book_bets book) \<rparr>)
              (bookmakers fx) \<rparr>))
      resp (None, (None, None, None)) = Inr st"
    using run by (rule for_each_ok_mono) (simp add: fixture_loop_drop_unpriced)
  then have "for_each (fixture_loop lib kickoff) (drop_unpriced lib resp)
      (None, (None, None, None)) = Inr st"
    by (simp add: drop_unpriced_def for_each_map)
  with False k t show ?thesis
    by (simp add: drop_unpriced_def pick_prematch_1x2_def)
qed

lemma truthy_iff: "truthy p \<longleftrightarrow> (\<exists>x. x \<noteq> 0 \<and> p = Some x)"
  by (cases p) (simp_all add: truthy_def)

lemmas pick_run =
  pick_prematch_1x2_def fixture_loop_def book_loop_def bet_step_def drop_unpriced_def pick_eval

text \<open>
  Claim C4. A bet fails the test of line 169 exactly when each of its three extracted
  prices is absent or is zero; a price string that \<open>float\<close> rejects is extracted as absent.
  A record that fails the test is never selected, whatever its update time: when
  \<open>pick_prematch_1x2\<close> returns a triple, it returns the same triple on the response without
  the bets that fail the test, and the two calls agree whenever the kickoff parses and no
  record clashes with it. A record of the match-winner market, updated not after the
  kickoff, with at least one nonzero price is selected with its whole triple when it is
  alone.
\<close>

theorem unpriced_never_selected:
  "(\<not> priced lib b \<longleftrightarrow>
      (case extract_hda lib (bet_values b) of (H, D, A) \<Rightarrow>
         (H = None \<or> H = Some 0) \<and> (D = None \<or> D = Some 0) \<and> (A = None \<or> A = Some 0))) \<and>
   (val_odd v = Some s \<and> to_float lib s = None \<longrightarrow> odd_of lib v = None) \<and>
   (pick_prematch_1x2 lib resp kickoff_iso = Inr t \<longrightarrow>
      pick_prematch_1x2 lib (drop_unpriced lib resp) kickoff_iso = Inr t) \<and>
   (fromisoformat lib (replace_Z kickoff_iso) = Some kickoff \<and>
    (\<forall>r \<in> set (records_of resp). \<not> clash lib kickoff r) \<longrightarrow>
      pick_prematch_1x2 lib (drop_unpriced lib resp) kickoff_iso =
      pick_prematch_1x2 lib resp kickoff_iso) \<and>
   (fromisoformat lib (replace_Z kickoff_iso) = Some kickoff \<and> updated_dt lib book = Some u \<and>
    dt_le u kickoff = Inr True \<and> book_bets book = [b] \<and> is_1x2 lib b \<and>
    extract_hda lib (bet_values b) = (H, D, A) \<and>
    (\<exists>x. x \<noteq> 0 \<and> (H = Some x \<or> D = Some x \<or> A = Some x)) \<longrightarrow>
      pick_prematch_1x2 lib [\<lparr> bookmakers = [book] \<rparr>] kickoff_iso = Inr (H, D, A))"
proof (intro conjI impI)
  show "\<not> priced lib b \<longleftrightarrow>
      (case extract_hda lib (bet_values b) of (H, D, A) \<Rightarrow>
         (H = None \<or> H = Some 0) \<and> (D = None \<or> D = Some 0) \<and> (A = None \<or> A = Some 0))"
    by (cases "extract_hda lib (bet_values b)")
       (auto simp: priced_def truthy_def split: option.splits)
next
  assume "val_odd v = Some s \<and> to_float lib s = None"
  then show "odd_of lib v = None" by (simp add: odd_of_def)
next
  assume "pick_prematch_1x2 lib resp kickoff_iso = Inr t"
  then show "pick_prematch_1x2 lib (drop_unpriced lib resp) kickoff_iso = Inr t"
    by (rule pick_drop_unpriced)
next
  assume a: "fromisoformat lib (replace_Z kickoff_iso) = Some kickoff \<and>
    (\<forall>r \<in> set (records_of resp). \<not> clash lib kickoff r)"
  then have "pick_prematch_1x2 lib resp kickoff_iso =
      Inr (chosen (cands lib kickoff (records_of resp)))"
    using pick_chosen [where lib = lib and kickoff_iso = kickoff_iso and
        kickoff = kickoff and resp = resp]
    by blast
  then show "pick_prematch_1x2 lib (drop_unpriced lib resp) kickoff_iso =
      pick_prematch_1x2 lib resp kickoff_iso"
    using pick_drop_unpriced by fastforce
next
  assume a: "fromisoformat lib (replace_Z kickoff_iso) = Some kickoff \<and> updated_dt lib book = Some u \<and>
    dt_le u kickoff = Inr True \<and> book_bets book = [b] \<and> is_1x2 lib b \<and>
    extract_hda lib (bet_values b) = (H, D, A) \<and>
    (\<exists>x. x \<noteq> 0 \<and> (H = Some x \<or> D = Some x \<or> A = Some x))"
  then have "truthy H \<or> truthy D \<or> truthy A"
    by (auto simp: truthy_iff)
  with a have "bet_step lib kickoff book b (None, (None, None, None)) =
      Inr (Some u, (H, D, A))"
    by (simp add: bet_step_def)
  with a pick_single [where lib = lib and kickoff_iso = kickoff_iso and
      kickoff = kickoff and book = book and b = b]
  show "pick_prematch_1x2 lib [\<lparr> bookmakers = [book] \<rparr>] kickoff_iso = Inr (H, D, A)"
    by simp
qed

theorem unpriced_never_selected_witness:
  "\<not> priced lib_example
       \<lparr> bet_name = ''1x2'',
         bet_values = [odds_val ''Home'' ''0'', odds_val ''Draw'' ''n/a'',
                       \<lparr> val_value = ''Away'', val_odd = None \<rparr>] \<rparr> \<and>
   pick_prematch_1x2 lib_example
     (resp_of
        [book_at ''2024-08-09T12:00:00+00:00'' [winner_bet ''1.85'' ''3.40'' ''4.20''],
         book_at ''2024-08-10T14:00:00+00:00''
           [\<lparr> bet_name = ''1x2'',
              bet_values = [odds_val ''Home'' ''0'', odds_val ''Draw'' ''n/a'',
                            \<lparr> val_value = ''Away'', val_odd = None \<rparr>] \<rparr>]])
     ''2024-08-10T15:00:00Z'' = Inr (Some 1.85, Some 3.4, Some 4.2) \<and>
   pick_prematch_1x2 lib_example
     (drop_unpriced lib_example (resp_of
        [book_at ''2024-08-09T12:00:00+00:00'' [winner_bet ''1.85'' ''3.40'' ''4.20''],
         book_at ''2024-08-10T14:00:00+00:00''
           [\<lparr> bet_name = ''1x2'',
              bet_values = [odds_val ''Home'' ''0'', odds_val ''Draw'' ''n/a'',
                            \<lparr> val_value = ''Away'', val_odd = None \<rparr>] \<rparr>]]))
     ''2024-08-10T15:00:00Z'' = Inr (Some 1.85, Some 3.4, Some 4.2) \<and>
   pick_prematch_1x2 lib_example
     [\<lparr> bookmakers =
          [book_at ''2024-08-10T14:00:00+00:00''
             [\<lparr> bet_name = ''1x2'',
                bet_values = [odds_val ''Home'' ''0'', odds_val ''Draw'' ''3.40''] \<rparr>]] \<rparr>]
     ''2024-08-10T15:00:00Z'' = Inr (Some 0, Some 3.4, None)"
proof -
  let ?zero = "\<lparr> bet_name = ''1x2'',
     bet_values = [odds_val ''Home'' ''0'', odds_val ''Draw'' ''n/a'',
                   \<lparr> val_value = ''Away'', val_odd = None \<rparr>] \<rparr>"
  let ?mixed = "\<lparr> bet_name = ''1x2'',
     bet_values = [odds_val ''Home'' ''0'', odds_val ''Draw'' ''3.40''] \<rparr>"
  let ?resp = "resp_of
     [book_at ''2024-08-09T12:00:00+00:00'' [winner_bet ''1.85'' ''3.40'' ''4.20''],
      book_at ''2024-08-10T14:00:00+00:00'' [?zero]]"
  let ?book = "book_at ''2024-08-10T14:00:00+00:00'' [?mixed]"
  let ?k = "Aware 1723302000000000"
  let ?kiso = "''2024-08-10T15:00:00Z''"
  note inst = unpriced_never_selected [where lib = lib_example and kickoff_iso = ?kiso and kickoff = ?k and resp = ?resp and
      t = "(Some 1.85, Some 3.4, Some 4.2)" and book = ?book and b = ?mixed and
      u = "Aware 1723298400000000" and H = "Some 0" and D = "Some 3.4" and A = None]
  have z: "\<not> priced lib_example ?zero"
    by (simp add: pick_eval)
  have p: "pick_prematch_1x2 lib_example ?resp ?kiso =
      Inr (Some 1.85, Some 3.4, Some 4.2)"
    by (simp add: pick_run)
  from inst p have d: "pick_prematch_1x2 lib_example
      (drop_unpriced lib_example ?resp) ?kiso = Inr (Some 1.85, Some 3.4, Some 4.2)"
    by blast
  have ex: "\<exists>x::real. x \<noteq> 0 \<and> (Some 0 = Some x \<or> Some 3.4 = Some x \<or> None = Some x)"
    by (rule exI [of _ "3.4"]) simp
  have "fromisoformat lib_example (replace_Z ?kiso) = Some ?k \<and>
      updated_dt lib_example ?book = Some (Aware 1723298400000000) \<and>
      dt_le (Aware 1723298400000000) ?k = Inr True \<and> book_bets ?book = [?mixed] \<and>
      is_1x2 lib_example ?mixed \<and>
      extract_hda lib_example (bet_values ?mixed) = (Some 0, Some 3.4, None)"
    by (simp add: pick_eval)
  with ex have pre: "fromisoformat lib_example (replace_Z ?kiso) = Some ?k \<and>
      updated_dt lib_example ?book = Some (Aware 1723298400000000) \<and>
      dt_le (Aware 1723298400000000) ?k = Inr True \<and> book_bets ?book = [?mixed] \<and>
      is_1x2 lib_example ?mixed \<and>
      extract_hda lib_example (bet_values ?mixed) = (Some 0, Some 3.4, None) \<and>
      (\<exists>x::real. x \<noteq> 0 \<and> (Some 0 = Some x \<or> Some 3.4 = Some x \<or> None = Some x))"
    by blast
  from inst pre have m: "pick_prematch_1x2 lib_example
      [\<lparr> bookmakers = [?book] \<rparr>] ?kiso = Inr (Some 0, Some 3.4, None)"
    by blast
  show ?thesis by (intro conjI z p d m)
qed

section \<open>Properties of the price extraction\<close>

lemma extract_hda_snoc:
  "extract_hda lib (vs @ [v]) = set_hda lib v (extract_hda lib vs)"
  by (simp add: extract_hda_def)

lemma last_price_snoc:
  "last_price lib P (vs @ [v]) =
     (if P v then odd_of lib v else last_price lib P vs)"
  by (simp add: last_price_def)

lemma extract_hda_last:
  "extract_hda lib vs =
     (last_price lib (is_home lib) vs, last_price lib (is_draw lib) vs,
      last_price lib (is_away lib) vs)"
proof (induction vs rule: rev_induct)
  case Nil
  show ?case by (simp add: extract_hda_def last_price_def)
next
  case (snoc v vs)
  show ?case
    unfolding extract_hda_snoc last_price_snoc snoc.IH
    by (auto simp: set_hda_def Let_def is_home_def is_draw_def is_away_def label_of_def)
qed

lemma last_price_split:
  assumes "P v" and "\<forall>x \<in> set post. \<not> P x"
  shows "last_price lib P (pre @ v # post) = odd_of lib v"
proof -
  from assms(2) have "filter P post = []" by (simp add: filter_empty_conv)
  with assms(1) show ?thesis by (simp add: last_price_def)
qed

lemma last_price_skip:
  "\<not> P v \<Longrightarrow> last_price lib P (pre @ v # post) = last_price lib P (pre @ post)"
  by (simp add: last_price_def)

text \<open>
  Claim C10. In the extraction of lines 156 to 168, the Home component of the triple is
  the price of the last pair of the list whose label, trimmed by \<open>str.strip\<close> and then
  lower-cased by \<open>str.lower\<close>, is \<open>home\<close> or \<open>1\<close> (absent when that price string does
  not parse), whatever pairs of that label come before it; likewise the Draw component
  for \<open>draw\<close> and \<open>x\<close> and the Away component for \<open>away\<close> and \<open>2\<close>. A pair whose
  label, so trimmed and lower-cased, is none of the six can be removed from the list
  without changing the triple.
\<close>

theorem extract_last_pair_wins:
  "(is_home lib v \<and> (\<forall>x \<in> set post. \<not> is_home lib x) \<longrightarrow>
      fst (extract_hda lib (pre @ v # post)) = odd_of lib v) \<and>
   (is_draw lib v \<and> (\<forall>x \<in> set post. \<not> is_draw lib x) \<longrightarrow>
      fst (snd (extract_hda lib (pre @ v # post))) = odd_of lib v) \<and>
   (is_away lib v \<and> (\<forall>x \<in> set post. \<not> is_away lib x) \<longrightarrow>
      snd (snd (extract_hda lib (pre @ v # post))) = odd_of lib v) \<and>
   (\<not> is_home lib v \<and> \<not> is_draw lib v \<and> \<not> is_away lib v \<longrightarrow>
      extract_hda lib (pre @ v # post) = extract_hda lib (pre @ post))"
  by (simp add: extract_hda_last last_price_split last_price_skip)

theorem extract_last_pair_wins_witness:
  "is_home lib_example (odds_val '' HOME '' ''3.40'') \<and>
   \<not> is_home lib_example (odds_val ''Over 2.5'' ''4.20'') \<and>
   fst (extract_hda lib_example
      ([odds_val ''Home'' ''1.85'', odds_val ''1'' ''2.10''] @ odds_val '' HOME '' ''3.40'' #
       [odds_val ''Over 2.5'' ''4.20''])) = Some 3.4 \<and>
   extract_hda lib_example
      ([odds_val ''Home'' ''1.85'', odds_val ''1'' ''2.10'', odds_val '' HOME '' ''3.40''] @
       odds_val ''Over 2.5'' ''4.20'' # []) = (Some 3.4, None, None)"
proof -
  let ?v = "odds_val '' HOME '' ''3.40''"
  let ?o = "odds_val ''Over 2.5'' ''4.20''"
  have h: "is_home lib_example ?v"
    by (simp add: is_home_def label_of_def pick_eval)
  have n: "\<not> is_home lib_example ?o \<and> \<not> is_draw lib_example ?o \<and> \<not> is_away lib_example ?o"
    by (simp add: is_home_def is_draw_def is_away_def label_of_def pick_eval)
  have o: "odd_of lib_example ?v = Some 3.4"
    by (simp add: pick_eval)
  from extract_last_pair_wins [where lib = lib_example and v = ?v and post = "[?o]" and
      pre = "[odds_val ''Home'' ''1.85'', odds_val ''1'' ''2.10'']"] h n o
  have a: "fst (extract_hda lib_example
      ([odds_val ''Home'' ''1.85'', odds_val ''1'' ''2.10''] @ ?v # [?o])) = Some 3.4"
    by simp
  have e: "extract_hda lib_example
      ([odds_val ''Home'' ''1.85'', odds_val ''1'' ''2.10'', ?v] @ []) = (Some 3.4, None, None)"
    by (simp add: pick_eval)
  from extract_last_pair_wins [where lib = lib_example and v = ?o and post = "[]" and
      pre = "[odds_val ''Home'' ''1.85'', odds_val ''1'' ''2.10'', ?v]"] n e
  have b: "extract_hda lib_example
      ([odds_val ''Home'' ''1.85'', odds_val ''1'' ''2.10'', ?v] @ ?o # []) =
      (Some 3.4, None, None)"
    by simp
  from n have n1: "\<not> is_home lib_example ?o" by simp
  show ?thesis by (intro conjI h n1 a b)
qed

section \<open>Properties of the HTTP client\<close>

lemma api_get_from_unfold:
  "api_get_from w i a =
     (if \<not> retry_if_exception_type_APIError (api_get_once (w i))
      then (api_get_once (w i), [], Suc i)
      else if stop_after_attempt a
        then (Inl (RetryError (projl (api_get_once (w i)))), [], Suc i)
      else (case api_get_from w (Suc i) (Suc a) of
              (r, sleeps, j) \<Rightarrow> (r, wait_exponential a # sleeps, j)))"
  by (subst api_get_from.simps)
     (auto simp: retry_if_exception_type_APIError_def split: sum.splits exc.splits)

lemma api_get_cases:
  "api_get w i =
     (if \<not> retry_if_exception_type_APIError (api_get_once (w i))
      then (api_get_once (w i), [], i + 1)
      else if \<not> retry_if_exception_type_APIError (api_get_once (w (i + 1)))
        then (api_get_once (w (i + 1)), [wait_exponential 1], i + 2)
      else if \<not> retry_if_exception_type_APIError (api_get_once (w (i + 2)))
        then (api_get_once (w (i + 2)), [wait_exponential 1, wait_exponential 2], i + 3)
      else (Inl (RetryError (projl (api_get_once (w (i + 2))))),
            [wait_exponential 1, wait_exponential 2], i + 3))"
proof -
  have three: "api_get_from w (i + 2) 3 =
      (if \<not> retry_if_exception_type_APIError (api_get_once (w (i + 2)))
       then (api_get_once (w (i + 2)), [], i + 3)
       else (Inl (RetryError (projl (api_get_once (w (i + 2))))), [], i + 3))"
    by (subst api_get_from_unfold)
       (simp add: stop_after_attempt_def numeral_2_eq_2 numeral_3_eq_3)
  have two: "api_get_from w (i + 1) 2 =
      (if \<not> retry_if_exception_type_APIError (api_get_once (w (i + 1)))
       then (api_get_once (w (i + 1)), [], i + 2)
       else (case api_get_from w (i + 2) 3 of
               (r, sleeps, j) \<Rightarrow> (r, wait_exponential 2 # sleeps, j)))"
    by (subst api_get_from_unfold)
       (simp add: stop_after_attempt_def numeral_2_eq_2 numeral_3_eq_3)
  have one: "api_get_from w i 1 =
      (if \<not> retry_if_exception_type_APIError (api_get_once (w i))
       then (api_get_once (w i), [], i + 1)
       else (case api_get_from w (i + 1) 2 of
               (r, sleeps, j) \<Rightarrow> (r, wait_exponential 1 # sleeps, j)))"
    by (subst api_get_from_unfold)
       (simp add: stop_after_attempt_def numeral_2_eq_2 numeral_3_eq_3)
  show ?thesis
    unfolding api_get_def one two three by simp
qed

lemma retry_iff:
  "retry_if_exception_type_APIError (api_get_once a) \<longleftrightarrow>
     (a = NoKey \<or> (\<exists>status_code text body. a = Reply status_code text body \<and> status_code \<ge> 300))"
  by (cases a)
     (auto simp: retry_if_exception_type_APIError_def api_get_once_def split: option.splits)

lemma wait_exponential_doubles:
  "wait_exponential (Suc (Suc m)) = min (2 * wait_exponential (Suc m)) 8"
proof -
  have closed: "wait_exponential (Suc n) = min (2 ^ n) 8" for n
    by (simp add: wait_exponential_def)
  have "min (2 * 2 ^ m) 8 = min (2 * min (2 ^ m) 8) (8::real)"
    by (simp add: min_def)
  then show ?thesis
    by (simp add: closed)
qed

text \<open>
  Claim C5, as amended. A call of \<open>api_get\<close> executes its body \<open>n\<close> times, \<open>1 \<le> n \<le> 3\<close>. Every
  execution but the last raised an \<open>APIError\<close>, and an \<open>APIError\<close> is raised without a key
  (\<open>NO_API_KEY\<close>) and on every status from 300 on (429 or any other): each of them is
  followed by another attempt as long as fewer than three were made. The sleeps between
  the attempts are the first \<open>n - 1\<close> of 1 and 2 units: the wait after attempt 1 is 1 unit,
  it doubles from one attempt to the next and never exceeds 8. A call that stops before
  the third attempt returns or raises what its last execution did, which is no \<open>APIError\<close>;
  a third execution that raises no \<open>APIError\<close> gives the result of the call, and one that
  raises an \<open>APIError\<close> makes the call fail.
\<close>

theorem api_get_retries:
  fixes w :: "nat \<Rightarrow> 'j attempt"
  assumes "api_get w i = (r, sleeps, j)"
  shows "(\<exists>n. j = i + n \<and> 1 \<le> n \<and> n \<le> 3 \<and>
            sleeps = take (n - 1) [1, 2] \<and>
            (\<forall>k < n - 1. retry_if_exception_type_APIError (api_get_once (w (i + k)))) \<and>
            (n < 3 \<longrightarrow> r = api_get_once (w (i + (n - 1))) \<and> \<not> retry_if_exception_type_APIError r) \<and>
            (n = 3 \<and> \<not> retry_if_exception_type_APIError (api_get_once (w (i + 2))) \<longrightarrow>
               r = api_get_once (w (i + 2))) \<and>
            (n = 3 \<and> retry_if_exception_type_APIError (api_get_once (w (i + 2))) \<longrightarrow>
               (\<exists>e. r = Inl e))) \<and>
         (\<forall>a :: 'j attempt. retry_if_exception_type_APIError (api_get_once a) \<longleftrightarrow>
            (a = NoKey \<or> (\<exists>status_code text body. a = Reply status_code text body \<and> status_code \<ge> 300))) \<and>
         wait_exponential 1 = 1 \<and> wait_exponential 2 = 2 \<and>
         (\<forall>m. wait_exponential (Suc (Suc m)) = min (2 * wait_exponential (Suc m)) 8) \<and>
         (\<forall>m. wait_exponential m \<le> 8)"
proof (intro conjI allI)
  let ?retry = "\<lambda>k. retry_if_exception_type_APIError (api_get_once (w (i + k)))"
  have w1: "wait_exponential 1 = 1" and w2: "wait_exponential 2 = 2"
    and w1': "wait_exponential (Suc 0) = 1"
    by (simp_all add: wait_exponential_def)
  consider (one) "\<not> ?retry 0" | (two) "?retry 0" "\<not> ?retry 1"
    | (three) "?retry 0" "?retry 1" by blast
  then show "\<exists>n. j = i + n \<and> 1 \<le> n \<and> n \<le> 3 \<and>
            sleeps = take (n - 1) [1, 2] \<and>
            (\<forall>k < n - 1. retry_if_exception_type_APIError (api_get_once (w (i + k)))) \<and>
            (n < 3 \<longrightarrow> r = api_get_once (w (i + (n - 1))) \<and> \<not> retry_if_exception_type_APIError r) \<and>
            (n = 3 \<and> \<not> retry_if_exception_type_APIError (api_get_once (w (i + 2))) \<longrightarrow>
               r = api_get_once (w (i + 2))) \<and>
            (n = 3 \<and> retry_if_exception_type_APIError (api_get_once (w (i + 2))) \<longrightarrow>
               (\<exists>e. r = Inl e))"
  proof cases
    case one
    with assms have "r = api_get_once (w i)" "sleeps = []" "j = i + 1"
      by (simp_all add: api_get_cases)
    with one show ?thesis by (intro exI [of _ 1]) simp
  next
    case two
    with assms have "r = api_get_once (w (i + 1))" "sleeps = [1]" "j = i + 2"
      by (auto simp: api_get_cases w1 w1')
    with two show ?thesis by (intro exI [of _ 2]) simp
  next
    case three
    with assms have s: "sleeps = [1, 2]" "j = i + 3"
      and r: "r = (if \<not> ?retry 2 then api_get_once (w (i + 2))
                   else Inl (RetryError (projl (api_get_once (w (i + 2))))))"
      by (auto simp: api_get_cases w1 w1' w2 split: if_splits)
    have "\<forall>k < 2. ?retry k"
    proof (intro allI impI)
      fix k :: nat
      assume "k < 2"
      then consider "k = 0" | "k = 1" by linarith
      then show "?retry k" using three by cases simp_all
    qed
    with s r show ?thesis by (intro exI [of _ 3]) auto
  qed
  show "wait_exponential 1 = 1" by (rule w1)
  show "wait_exponential 2 = 2" by (rule w2)
  show "wait_exponential (Suc (Suc m)) = min (2 * wait_exponential (Suc m)) 8" for m
    by (rule wait_exponential_doubles)
  show "wait_exponential m \<le> 8" for m
    by (simp add: wait_exponential_def)
  show "retry_if_exception_type_APIError (api_get_once a) \<longleftrightarrow>
      (a = NoKey \<or> (\<exists>status_code text body. a = Reply status_code text body \<and> status_code \<ge> 300))"
    for a :: "'j attempt"
    by (rule retry_iff)
qed

text \<open>On a string of ASCII characters \<open>take_chars\<close> takes bytes.\<close>

lemma take_chars_ascii:
  "list_all (\<lambda>c. \<not> is_continuation c) s \<Longrightarrow> take_chars n s = take n s"
proof (induction n arbitrary: s)
  case 0
  show ?case by simp
next
  case (Suc n)
  show ?case
  proof (cases s)
    case Nil
    then show ?thesis by simp
  next
    case (Cons c cs)
    with Suc.prems have cs: "list_all (\<lambda>c. \<not> is_continuation c) cs" by simp
    then have "takeWhile is_continuation cs = []" "dropWhile is_continuation cs = cs"
      by (cases cs; simp)+
    with Cons Suc.IH [OF cs] show ?thesis by simp
  qed
qed

lemmas api_eval =
  api_get_def api_get_from.simps api_get_once_def retry_if_exception_type_APIError_def
  stop_after_attempt_def wait_exponential_def digits.simps take_chars_ascii is_continuation_def

theorem api_get_retries_witness:
  "api_get (\<lambda>n. if n = 0 then Reply 503 ''busy'' None else Reply 200 ''ok'' (Some True)) 0 =
     (Inr True, [1], 2) \<and>
   (\<exists>n. (2::nat) = 0 + n \<and> 1 \<le> n \<and> n \<le> 3 \<and>
      [1::real] = take (n - 1) [1, 2] \<and>
      (\<forall>k < n - 1. retry_if_exception_type_APIError
         (api_get_once (if 0 + k = 0 then Reply 503 ''busy'' None else Reply 200 ''ok'' (Some True)))) \<and>
      (n < 3 \<longrightarrow>
         Inr True =
           api_get_once
             (if 0 + (n - 1) = 0 then Reply 503 ''busy'' None else Reply 200 ''ok'' (Some True)) \<and>
         \<not> retry_if_exception_type_APIError (Inr True :: exc + bool)))"
proof -
  let ?w = "\<lambda>n::nat. if n = 0 then Reply 503 ''busy'' None else Reply 200 ''ok'' (Some True)"
  have run: "api_get ?w 0 = (Inr True, [1], 2)"
    by (simp add: api_eval)
  from api_get_retries [OF run]
  have "\<exists>n. (2::nat) = 0 + n \<and> 1 \<le> n \<and> n \<le> 3 \<and>
      [1::real] = take (n - 1) [1, 2] \<and>
      (\<forall>k < n - 1. retry_if_exception_type_APIError (api_get_once (?w (0 + k)))) \<and>
      (n < 3 \<longrightarrow> Inr True = api_get_once (?w (0 + (n - 1))) \<and>
         \<not> retry_if_exception_type_APIError (Inr True :: exc + bool))"
    by blast
  with run show ?thesis
    by (simp add: api_get_once_def retry_if_exception_type_APIError_def)
qed

theorem api_get_retries_no_key:
  "api_get (\<lambda>n. NoKey :: bool attempt) 0 =
     (Inl (RetryError (APIError ''NO_API_KEY'')), [1, 2], 3) \<and>
   api_get (\<lambda>n. Reply 500 ''Internal Server Error'' None :: bool attempt) 0 =
     (Inl (RetryError (APIError ''HTTP_500: Internal Server Error'')), [1, 2], 3)"
  by (simp add: api_eval)

section \<open>Properties of row building\<close>

text \<open>
  Claim C6 fails on the code. The odds of a fixture are fetched through the decorated
  \<open>api_get\<close>, which turns an \<open>APIError\<close> of its third attempt into a \<open>RetryError\<close>; the
  handler of lines 198 to 202 catches \<open>APIError\<close> only. With an odds endpoint that answers
  HTTP 500, or with no key in the environment, \<open>build_dataframe\<close> raises at the first
  fixture, inside the loop: nothing is logged, no row is built and the following fixtures
  are not visited.
\<close>

theorem build_dataframe_odds_failure:
  "build_dataframe lib_example
     (\<lambda>n. Reply 500 ''Internal Server Error'' None) 0
     [fixture_example 1001 ''2024-08-10T15:00:00+00:00'' ''Premier League'' ''Arsenal'' ''Chelsea'',
      fixture_example 1002 ''2024-08-17T15:00:00+00:00'' ''Premier League'' ''Everton'' ''Arsenal'']
     ''Arsenal'' True =
     Inl (RetryError (APIError ''HTTP_500: Internal Server Error'')) \<and>
   build_dataframe lib_example (\<lambda>n. NoKey) 0
     [fixture_example 1001 ''2024-08-10T15:00:00+00:00'' ''Premier League'' ''Arsenal'' ''Chelsea'',
      fixture_example 1002 ''2024-08-17T15:00:00+00:00'' ''Premier League'' ''Everton'' ''Arsenal'']
     ''Arsenal'' True =
     Inl (RetryError (APIError ''NO_API_KEY''))"
  by (simp add: build_dataframe_def row_step_def get_fixture_odds_1x2_def api_eval)

lemma api_get_not_APIError: "fst (api_get w i) \<noteq> Inl (APIError m)"
  by (auto simp: api_get_cases retry_if_exception_type_APIError_def)

lemma for_each_raises:
  assumes "for_each body xs st = Inl e"
  shows "\<exists>x \<in> set xs. \<exists>s. body x s = Inl e"
  using assms by (induction xs arbitrary: st) (auto split: sum.splits)

lemma bet_step_raises:
  "bet_step lib kickoff book b st = Inl e \<Longrightarrow> e = TypeError"
proof -
  have le: "dt_le u v = Inl x \<Longrightarrow> x = TypeError" for u v x
    by (cases u; cases v) simp_all
  have gt: "dt_gt u v = Inl x \<Longrightarrow> x = TypeError" for u v x
    by (cases u; cases v) simp_all
  show "bet_step lib kickoff book b st = Inl e \<Longrightarrow> e = TypeError"
    by (auto simp: bet_step_def split: if_splits option.splits sum.splits bool.splits prod.splits
        dest: le gt)
qed

lemma pick_raises:
  assumes "pick_prematch_1x2 lib resp kickoff_iso = Inl e"
  shows "e = ValueError \<or> e = TypeError"
proof (cases "fromisoformat lib (replace_Z kickoff_iso)")
  case None
  with assms show ?thesis by (auto simp: pick_prematch_1x2_def split: if_splits)
next
  case (Some kickoff)
  with assms have "for_each (fixture_loop lib kickoff) resp
      (None, (None, None, None)) = Inl e"
    by (auto simp: pick_prematch_1x2_def split: if_splits sum.splits)
  from for_each_raises [OF this]
  obtain fx s where "fixture_loop lib kickoff fx s = Inl e"
    by blast
  then have "for_each (book_loop lib kickoff) (bookmakers fx) s = Inl e"
    by (simp add: fixture_loop_def)
  from for_each_raises [OF this]
  obtain book s' where "book_loop lib kickoff book s' = Inl e"
    by blast
  then have "for_each (bet_step lib kickoff book) (book_bets book) s' = Inl e"
    by (simp add: book_loop_def)
  from for_each_raises [OF this]
  obtain b s'' where "bet_step lib kickoff book b s'' = Inl e"
    by blast
  then show ?thesis by (simp add: bet_step_raises)
qed

lemma get_fixture_odds_not_APIError:
  "fst (get_fixture_odds_1x2 lib w i kickoff_iso) \<noteq> Inl (APIError m)"
proof
  assume a: "fst (get_fixture_odds_1x2 lib w i kickoff_iso) = Inl (APIError m)"
  obtain r sleeps j where g: "api_get w i = (r, sleeps, j)"
    by (cases "api_get w i") auto
  with api_get_not_APIError [of w i m] have r: "r \<noteq> Inl (APIError m)" by simp
  show False
  proof (cases r)
    case (Inl e)
    with a g r show False by (simp add: get_fixture_odds_1x2_def)
  next
    case (Inr data)
    with a g show False
      by (auto simp: get_fixture_odds_1x2_def split: option.splits if_splits dest: pick_raises)
  qed
qed

text \<open>
  The handler of lines 198 to 202 is never entered: in a run of \<open>build_dataframe\<close> that
  completes nothing was logged and \<open>fetch_odds\<close> has the value it was called with.
\<close>

lemma row_step_handler_unreachable:
  assumes "row_step lib w subject f st = Inr st'"
  shows "logged st' = logged st \<and> fetch_odds st' = fetch_odds st"
proof (cases "fetch_odds st")
  case False
  with assms show ?thesis by (auto simp: row_step_def)
next
  case True
  obtain r sleeps j where g:
    "get_fixture_odds_1x2 lib w (clock st) (get_field (fx_date f)) = (r, sleeps, j)"
    by (cases "get_fixture_odds_1x2 lib w (clock st) (get_field (fx_date f))") auto
  with get_fixture_odds_not_APIError [of lib w "clock st" "get_field (fx_date f)"]
  have "\<forall>m. r \<noteq> Inl (APIError m)" by simp
  with assms True g show ?thesis
    by (cases r) (auto simp: row_step_def split: exc.splits)
qed

lemma build_dataframe_handler_unreachable:
  assumes "build_dataframe lib w i fixtures subject fetch = Inr st"
  shows "logged st = [] \<and> fetch_odds st = fetch"
proof -
  have run: "for_each (row_step lib w subject) fixtures s = Inr s' \<Longrightarrow>
      logged s' = logged s \<and> fetch_odds s' = fetch_odds s" for s s'
  proof (induction fixtures arbitrary: s)
    case Nil
    then show ?case by simp
  next
    case (Cons f fs)
    from Cons.prems obtain s1 where s1: "row_step lib w subject f s = Inr s1"
      "for_each (row_step lib w subject) fs s1 = Inr s'"
      by (auto split: sum.splits)
    from row_step_handler_unreachable [OF s1(1)] Cons.IH [OF s1(2)] show ?case by simp
  qed
  let ?s0 = "\<lparr> rows = [], fetch_odds = fetch, clock = i, slept = [], logged = [] \<rparr>"
  from assms obtain s' where s': "for_each (row_step lib w subject) fixtures ?s0 = Inr s'"
    and st: "logged st = logged s' \<and> fetch_odds st = fetch_odds s'"
    by (auto simp: build_dataframe_def split: sum.splits if_splits)
  from run [OF s'] st show ?thesis by simp
qed

section \<open>Properties of the team resolver\<close>

lemma find_first:
  "\<forall>x \<in> set pre. \<not> P x \<Longrightarrow> P y \<Longrightarrow> find P (pre @ y # post) = Some y"
  by (induction pre) auto

lemma find_team_id_member:
  assumes "results \<noteq> []"
  shows "\<exists>x \<in> set results. find_team_id lib results q = team_id x"
proof (cases results)
  case Nil
  with assms show ?thesis by simp
next
  case (Cons first rest)
  show ?thesis
  proof (cases "find (name_matches lib q) results")
    case None
    with Cons show ?thesis by (auto simp: find_team_id_def)
  next
    case (Some item)
    then have "item \<in> set results" by (auto simp: find_Some_iff)
    with Some Cons show ?thesis by (auto simp: find_team_id_def)
  qed
qed

text \<open>
  Claim C7, as amended. A candidate matches the query when it has a name, the name is not
  empty and \<open>str.lower\<close> maps the name and the query to the same string. \<open>find_team_id\<close>
  returns the identifier field of the first matching candidate when there is one, and
  otherwise that of the first candidate of the response; it returns nothing on the empty
  response, and when every candidate carries an identifier it returns nothing only on the
  empty response.
\<close>

theorem find_team_id_resolves:
  "(results = [] \<longrightarrow> find_team_id lib results q = None) \<and>
   (results = pre @ item # post \<and> name_matches lib q item \<and>
    (\<forall>x \<in> set pre. \<not> name_matches lib q x) \<longrightarrow>
      find_team_id lib results q = team_id item) \<and>
   (results = first # rest \<and> (\<forall>x \<in> set results. \<not> name_matches lib q x) \<longrightarrow>
      find_team_id lib results q = team_id first) \<and>
   (name_matches lib q c \<longleftrightarrow>
      (\<exists>n. team_name c = Some n \<and> n \<noteq> [] \<and> lower lib n = lower lib q)) \<and>
   ((\<forall>x \<in> set results. team_id x \<noteq> None) \<longrightarrow>
      (find_team_id lib results q = None \<longleftrightarrow> results = []))"
proof (intro conjI impI)
  show "find_team_id lib results q = None" if "results = []"
    using that by (simp add: find_team_id_def)
  show "find_team_id lib results q = team_id item"
    if "results = pre @ item # post \<and> name_matches lib q item \<and>
      (\<forall>x \<in> set pre. \<not> name_matches lib q x)"
  proof -
    from that have "find (name_matches lib q) results = Some item"
      by (simp add: find_first)
    moreover from that have "results \<noteq> []" by auto
    ultimately show ?thesis
      by (cases results) (simp_all add: find_team_id_def)
  qed
  show "find_team_id lib results q = team_id first"
    if "results = first # rest \<and> (\<forall>x \<in> set results. \<not> name_matches lib q x)"
  proof -
    from that have "find (name_matches lib q) results = None"
      by (simp add: find_None_iff)
    with that show ?thesis by (auto simp: find_team_id_def)
  qed
  show "name_matches lib q c \<longleftrightarrow>
      (\<exists>n. team_name c = Some n \<and> n \<noteq> [] \<and> lower lib n = lower lib q)"
    by (simp add: name_matches_def split: option.splits)
  show "find_team_id lib results q = None \<longleftrightarrow> results = []"
    if ids: "\<forall>x \<in> set results. team_id x \<noteq> None"
  proof
    assume none: "find_team_id lib results q = None"
    show "results = []"
    proof (rule ccontr)
      assume "results \<noteq> []"
      from find_team_id_member [OF this, of lib q] ids none show False by auto
    qed
  next
    assume "results = []"
    then show "find_team_id lib results q = None" by (simp add: find_team_id_def)
  qed
qed

lemmas name_eval = name_matches_def lib_example_def ascii_lower_def ascii_lower_char_def

theorem find_team_id_resolves_witness:
  "name_matches lib_example ''Arsenal'' \<lparr> team_name = Some ''Arsenal'', team_id = Some 42 \<rparr> \<and>
   \<not> name_matches lib_example ''Arsenal'' \<lparr> team_name = Some ''Arsenal FC'', team_id = Some 7 \<rparr> \<and>
   find_team_id lib_example
     [\<lparr> team_name = Some ''Arsenal FC'', team_id = Some 7 \<rparr>,
      \<lparr> team_name = Some ''Arsenal'', team_id = Some 42 \<rparr>] ''Arsenal'' = Some 42 \<and>
   find_team_id lib_example
     [\<lparr> team_name = Some ''Arsenal FC'', team_id = Some 7 \<rparr>,
      \<lparr> team_name = Some ''Arsenal'', team_id = Some 42 \<rparr>] ''arsenal f'' = Some 7"
proof -
  let ?fc = "\<lparr> team_name = Some ''Arsenal FC'', team_id = Some 7 \<rparr>"
  let ?ar = "\<lparr> team_name = Some ''Arsenal'', team_id = Some 42 \<rparr>"
  have m: "name_matches lib_example ''Arsenal'' ?ar"
    by (simp add: name_eval)
  have n: "\<not> name_matches lib_example ''Arsenal'' ?fc"
    by (simp add: name_eval)
  have n2: "\<forall>x \<in> set [?fc, ?ar]. \<not> name_matches lib_example ''arsenal f'' x"
    by (simp add: name_eval)
  from find_team_id_resolves [where lib = lib_example and results = "[?fc, ?ar]" and
      q = "''Arsenal''" and pre = "[?fc]" and item = ?ar and post = "[]"] m n
  have a: "find_team_id lib_example [?fc, ?ar] ''Arsenal'' = Some 42" by simp
  from find_team_id_resolves [where lib = lib_example and results = "[?fc, ?ar]" and
      q = "''arsenal f''" and first = ?fc and rest = "[?ar]"] n2
  have b: "find_team_id lib_example [?fc, ?ar] ''arsenal f'' = Some 7" by simp
  show ?thesis by (intro conjI m n a b)
qed

theorem find_team_id_counterexample:
  "\<not> (find_team_id lib_example [\<lparr> team_name = Some ''Arsenal'', team_id = None \<rparr>] ''Arsenal'' = None
        \<longleftrightarrow> [\<lparr> team_name = Some ''Arsenal'', team_id = None \<rparr>] = []) \<and>
   find (\<lambda>c. \<exists>n. team_name c = Some n \<and> lower lib_example n = lower lib_example [])
     [\<lparr> team_name = Some ''Arsenal'', team_id = Some 42 \<rparr>,
      \<lparr> team_name = Some [], team_id = Some 7 \<rparr>] =
     Some \<lparr> team_name = Some [], team_id = Some 7 \<rparr> \<and>
   find_team_id lib_example
     [\<lparr> team_name = Some ''Arsenal'', team_id = Some 42 \<rparr>,
      \<lparr> team_name = Some [], team_id = Some 7 \<rparr>] [] = Some 42"
  by (simp add: find_team_id_def name_eval)

section \<open>Properties of the fixture lister\<close>












section \<open>The summary sheet\<close>





end
